theory Spec2Isabelle
  imports Main
begin

section \<open>Column extraction from the truck event table\<close>

text \<open>
  The program \<^verbatim>\<open>src/homework/extract_specific_columns.py\<close> is one procedure:
  it ensures the output directory, reads nine columns of a CSV file with declared
  column types, prints a report, writes the table back and returns a Boolean; two
  exception handlers turn failures of the \<^verbatim>\<open>try\<close> block into \<^verbatim>\<open>False\<close>.

  The procedure is embedded with its effects made explicit: the part of the disk below
  the working directory is a tree that is passed in and returned, standard output is
  the list of messages printed, and an exception is a value (\<open>Inl\<close>) of a sum type.
  The library calls of the source (\<^verbatim>\<open>Path.mkdir\<close>, \<^verbatim>\<open>pandas.read_csv\<close>,
  \<^verbatim>\<open>DataFrame.to_csv\<close>) are modelled with the arguments the source passes, following
  the documented behaviour of pathlib and of pandas' C parser.

  What the model leaves out: file permissions, disk faults and a standard output that
  refuses a message (every \<^verbatim>\<open>print\<close> succeeds); the byte level of a CSV file (a file
  is the list of its records, each the list of its fields, as the tokenizer delivers
  them; the first record is the header); pandas' inference of an index column from a
  first data record that is longer than the header (fields beyond the header's width are
  taken as not read).

  Some conversions depend on the version of pandas or on the platform, and the model
  fixes one reading of them: an integer that does not fit 32 bits is wrapped, a decimal
  literal with more than fifteen digits or a large exponent is taken as correctly
  rounded, a column of Boolean words with missing values among them is taken as refused,
  and a category keeps the text of its fields. The theorems below that speak of the
  values of a table restrict the table so that none of these readings is used.
\<close>

subsection \<open>The disk\<close>

type_synonym csv = "string list list"

text \<open>A path is the list of its components, relative to the working directory.\<close>

type_synonym path = "string list"

datatype node = File csv | Dir "string \<Rightarrow> node option"

text \<open>The working directory: its entries by name.\<close>

type_synonym directory = "string \<Rightarrow> node option"

text \<open>
  The exceptions of the run. All of them are subclasses of \<^verbatim>\<open>Exception\<close>; the first
  four and \<open>OSError\<close> come from the operating system, \<open>EmptyDataError\<close> and
  \<open>ValueError\<close> from pandas.
\<close>

datatype exn = FileNotFoundError | FileExistsError | NotADirectoryError
  | IsADirectoryError | OSError | EmptyDataError | ValueError

text \<open>
  Path resolution: a missing component is \<^verbatim>\<open>ENOENT\<close>, a regular file in the place of
  a directory is \<^verbatim>\<open>ENOTDIR\<close>.
\<close>

fun stat :: "directory \<Rightarrow> path \<Rightarrow> exn + node" where
  "stat d [] = Inr (Dir d)"
| "stat d (c # cs) =
     (case d c of
        None \<Rightarrow> Inl FileNotFoundError
      | Some (File f) \<Rightarrow> (if cs = [] then Inr (File f) else Inl NotADirectoryError)
      | Some (Dir d') \<Rightarrow> stat d' cs)"

definition is_dir :: "directory \<Rightarrow> path \<Rightarrow> bool" where
  "is_dir d p = (case stat d p of Inr (Dir _) \<Rightarrow> True | _ \<Rightarrow> False)"

text \<open>\<^verbatim>\<open>os.mkdir\<close>: creates one directory; the path must not exist, its parent must.\<close>

fun os_mkdir :: "directory \<Rightarrow> path \<Rightarrow> exn + directory" where
  "os_mkdir d [] = Inl FileExistsError"
| "os_mkdir d [c] =
     (case d c of
        None \<Rightarrow> Inr (d(c \<mapsto> Dir Map.empty))
      | Some _ \<Rightarrow> Inl FileExistsError)"
| "os_mkdir d (c # cs) =
     (case d c of
        None \<Rightarrow> Inl FileNotFoundError
      | Some (File _) \<Rightarrow> Inl NotADirectoryError
      | Some (Dir d') \<Rightarrow>
          (case os_mkdir d' cs of
             Inl e \<Rightarrow> Inl e
           | Inr d'' \<Rightarrow> Inr (d(c \<mapsto> Dir d''))))"

text \<open>\<^verbatim>\<open>Path.parent\<close>; the parent of the working directory is itself.\<close>

definition parent :: "path \<Rightarrow> path" where
  "parent p = butlast p"

text \<open>
  \<^verbatim>\<open>Path.mkdir(parents=False, exist_ok=True)\<close>: \<^verbatim>\<open>FileNotFoundError\<close> is raised again, any
  other \<^verbatim>\<open>OSError\<close> is swallowed only when the path is a directory.
\<close>

definition mkdir_exist_ok :: "directory \<Rightarrow> path \<Rightarrow> exn + directory" where
  "mkdir_exist_ok d p =
     (case os_mkdir d p of
        Inr d' \<Rightarrow> Inr d'
      | Inl FileNotFoundError \<Rightarrow> Inl FileNotFoundError
      | Inl e \<Rightarrow> (if is_dir d p then Inr d else Inl e))"

text \<open>
  \<^verbatim>\<open>Path.mkdir(parents=True, exist_ok=True)\<close>, as pathlib writes it:
  \<^verbatim>\<open>
  try:
      os.mkdir(self, mode)
  except FileNotFoundError:
      if not parents or self.parent == self:
          raise
      self.parent.mkdir(parents=True, exist_ok=True)
      self.mkdir(mode, parents=False, exist_ok=exist_ok)
  except OSError:
      if not exist_ok or not self.is_dir():
          raise
  \<close>
\<close>

function mkdir :: "directory \<Rightarrow> path \<Rightarrow> exn + directory" where
  "mkdir d p =
     (case os_mkdir d p of
        Inr d' \<Rightarrow> Inr d'
      | Inl FileNotFoundError \<Rightarrow>
          (if parent p = p then Inl FileNotFoundError
           else (case mkdir d (parent p) of
                   Inl e \<Rightarrow> Inl e
                 | Inr d' \<Rightarrow> mkdir_exist_ok d' p))
      | Inl e \<Rightarrow> (if is_dir d p then Inr d else Inl e))"
  by pat_completeness auto
termination
proof (relation "measure (\<lambda>(d, p). length p)")
  show "wf (measure (\<lambda>(d, p). length p))" by simp
next
  fix d :: directory and p :: path
  assume "parent p \<noteq> p"
  then have "p \<noteq> []" by (auto simp: parent_def)
  then show "((d, parent p), (d, p)) \<in> measure (\<lambda>(d, p). length p)"
    by (simp add: parent_def)
qed

declare mkdir.simps [simp del]

text \<open>Opening a file for reading.\<close>

definition open_read :: "directory \<Rightarrow> path \<Rightarrow> exn + csv" where
  "open_read d p =
     (case stat d p of
        Inl e \<Rightarrow> Inl e
      | Inr (Dir _) \<Rightarrow> Inl IsADirectoryError
      | Inr (File f) \<Rightarrow> Inr f)"

text \<open>Opening a file in mode \<^verbatim>\<open>w\<close> and writing it: the file is created or replaced.\<close>

fun open_write :: "directory \<Rightarrow> path \<Rightarrow> csv \<Rightarrow> exn + directory" where
  "open_write d [] f = Inl IsADirectoryError"
| "open_write d [c] f =
     (case d c of
        Some (Dir _) \<Rightarrow> Inl IsADirectoryError
      | _ \<Rightarrow> Inr (d(c \<mapsto> File f)))"
| "open_write d (c # cs) f =
     (case d c of
        None \<Rightarrow> Inl FileNotFoundError
      | Some (File _) \<Rightarrow> Inl NotADirectoryError
      | Some (Dir d') \<Rightarrow>
          (case open_write d' cs f of
             Inl e \<Rightarrow> Inl e
           | Inr d'' \<Rightarrow> Inr (d(c \<mapsto> Dir d''))))"

subsection \<open>Text to numbers\<close>

definition isspace :: "char \<Rightarrow> bool" where
  "isspace c = (c \<in> set [CHR 0x20, CHR 0x09, CHR 0x0A, CHR 0x0B, CHR 0x0C, CHR 0x0D])"

definition isdigit :: "char \<Rightarrow> bool" where
  "isdigit c = (c \<in> set ''0123456789'')"

definition digit_val :: "char \<Rightarrow> nat" where
  "digit_val c = of_char c - 48"

definition nat_of_digits :: "string \<Rightarrow> nat" where
  "nat_of_digits ds = foldl (\<lambda>n c. 10 * n + digit_val c) 0 ds"

definition take_sign :: "string \<Rightarrow> bool \<times> string" where
  "take_sign s =
     (case s of
        [] \<Rightarrow> (False, [])
      | c # r \<Rightarrow>
          if c = CHR ''-'' then (True, r)
          else if c = CHR ''+'' then (False, r)
          else (False, s))"

text \<open>
  The parser's integer conversion: blanks, a sign, digits, blanks, and nothing else.
  \<open>None\<close> is the conversion's error.
\<close>

definition str_to_int64 :: "string \<Rightarrow> int option" where
  "str_to_int64 s =
     (let (neg, t) = take_sign (dropWhile isspace s);
          ds = takeWhile isdigit t;
          rest = dropWhile isspace (dropWhile isdigit t)
      in if ds = [] \<or> rest \<noteq> [] then None
         else Some (if neg then - int (nat_of_digits ds) else int (nat_of_digits ds)))"

definition take_fraction :: "string \<Rightarrow> string \<times> string" where
  "take_fraction s =
     (case s of
        [] \<Rightarrow> ([], [])
      | c # r \<Rightarrow>
          if c = CHR ''.'' then (takeWhile isdigit r, dropWhile isdigit r) else ([], s))"

text \<open>An exponent mark with no digit after it is not consumed.\<close>

definition take_exponent :: "string \<Rightarrow> int \<times> string" where
  "take_exponent s =
     (case s of
        [] \<Rightarrow> (0, [])
      | c # r \<Rightarrow>
          if c = CHR ''e'' \<or> c = CHR ''E'' then
            (let (neg, t) = take_sign r; ds = takeWhile isdigit t
             in if ds = [] then (0, s)
                else (if neg then - int (nat_of_digits ds) else int (nat_of_digits ds),
                      dropWhile isdigit t))
          else (0, s))"

text \<open>
  The parser's decimal conversion reads blanks, a sign, digits with an optional point, an
  optional exponent, and blanks. The result \<open>(neg, m, e)\<close> stands for the number
  \<open>(-1)\<^bsup>neg\<^esup> \<times> m \<times> 10\<^bsup>e\<^esup>\<close>, kept exact here.
\<close>

definition xstrtod :: "string \<Rightarrow> (bool \<times> nat \<times> int) option" where
  "xstrtod s =
     (let (neg, t) = take_sign (dropWhile isspace s);
          ip = takeWhile isdigit t;
          (fp, r) = take_fraction (dropWhile isdigit t);
          (ex, r') = take_exponent r
      in if ip @ fp = [] \<or> dropWhile isspace r' \<noteq> [] then None
         else Some (neg, nat_of_digits (ip @ fp), ex - int (length fp)))"

subsection \<open>Binary floating point\<close>

text \<open>
  A binary32 value: a finite number \<open>(-1)\<^bsup>neg\<^esup> \<times> m \<times> 2\<^bsup>t\<^esup>\<close> (the sign is kept
  for zero too), an infinity, or not-a-number.
\<close>

datatype f32 = Finite bool nat int | Infinity bool | NaN

fun bitlen :: "nat \<Rightarrow> nat" where
  "bitlen n = (if n = 0 then 0 else Suc (bitlen (n div 2)))"

declare bitlen.simps [simp del]

text \<open>The integer part of the binary logarithm of \<open>n / d\<close>, for positive \<open>n\<close> and \<open>d\<close>.\<close>

definition floor_log2 :: "nat \<Rightarrow> nat \<Rightarrow> int" where
  "floor_log2 n d =
     (let e = int (bitlen n) - int (bitlen d)
      in if (if 0 \<le> e then d * 2 ^ nat e \<le> n else d \<le> n * 2 ^ nat (- e)) then e
         else e - 1)"

text \<open>\<open>n / d\<close> rounded to the nearest integer, ties to the even one.\<close>

definition rne :: "nat \<Rightarrow> nat \<Rightarrow> nat" where
  "rne n d =
     (let q = n div d; r = n mod d
      in if 2 * r < d then q
         else if d < 2 * r then q + 1
         else if even q then q else q + 1)"

text \<open>
  IEEE 754 rounding to nearest, ties to even, of the non-negative rational \<open>n / d\<close> to
  the binary format with \<open>p\<close> significant bits, least quantum \<open>2\<^bsup>qmin\<^esup>\<close> and largest
  exponent \<open>emax\<close>: \<open>Some (m, t)\<close> is the value \<open>m \<times> 2\<^bsup>t\<^esup>\<close>, \<open>None\<close> is overflow
  to infinity.
\<close>

definition round_binary :: "nat \<Rightarrow> int \<Rightarrow> int \<Rightarrow> nat \<Rightarrow> nat \<Rightarrow> (nat \<times> int) option" where
  "round_binary p qmin emax n d =
     (if n = 0 then Some (0, 0)
      else
        (let e = floor_log2 n d;
             t = max (e - (int p - 1)) qmin;
             m = (if 0 \<le> t then rne n (d * 2 ^ nat t) else rne (n * 2 ^ nat (- t)) d)
         in if (if emax + 1 < t then True else 2 ^ nat (emax + 1 - t) \<le> m) then None
            else Some (m, t)))"

text \<open>
  A column of type \<^verbatim>\<open>float32\<close> is parsed as binary64 and then cast
  (\<^verbatim>\<open>result.astype(dtype)\<close>): two roundings. The conversion of the decimal literal to
  binary64 is modelled as correctly rounded, which the parser's converter is for
  literals of up to fifteen significant digits and small exponents.
\<close>

definition f32_of_decimal :: "bool \<times> nat \<times> int \<Rightarrow> f32" where
  "f32_of_decimal x =
     (case x of (neg, m, e) \<Rightarrow>
        (case (if 0 \<le> e then round_binary 53 (- 1074) 1023 (m * 10 ^ nat e) 1
               else round_binary 53 (- 1074) 1023 m (10 ^ nat (- e))) of
           None \<Rightarrow> Infinity neg
         | Some (m64, t64) \<Rightarrow>
             (case (if 0 \<le> t64 then round_binary 24 (- 149) 127 (m64 * 2 ^ nat t64) 1
                    else round_binary 24 (- 149) 127 m64 (2 ^ nat (- t64))) of
                None \<Rightarrow> Infinity neg
              | Some (m32, t32) \<Rightarrow> Finite neg m32 t32)))"

subsection \<open>Numbers to text\<close>

definition digit_char :: "nat \<Rightarrow> char" where
  "digit_char n = ''0123456789'' ! n"

fun decimal :: "nat \<Rightarrow> string" where
  "decimal n =
     (if n < 10 then [digit_char n] else decimal (n div 10) @ [digit_char (n mod 10)])"

declare decimal.simps [simp del]

definition zfill :: "nat \<Rightarrow> string \<Rightarrow> string" where
  "zfill w s = replicate (w - length s) CHR ''0'' @ s"

text \<open>
  \<^verbatim>\<open>'%.6f' % x\<close> for a binary32 \<open>x\<close>: the exact value, rounded to six decimals (ties
  to even), with the sign of a negative zero kept.
\<close>

definition format_6f :: "f32 \<Rightarrow> string" where
  "format_6f x =
     (case x of
        NaN \<Rightarrow> ''nan''
      | Infinity neg \<Rightarrow> (if neg then ''-inf'' else ''inf'')
      | Finite neg m t \<Rightarrow>
          (let k = (if 0 \<le> t then m * 2 ^ nat t * 10 ^ 6
                    else rne (m * 10 ^ 6) (2 ^ nat (- t)))
           in (if neg then ''-'' else '''') @ decimal (k div 10 ^ 6) @ ''.''
              @ zfill 6 (decimal (k mod 10 ^ 6))))"

subsection \<open>Typed columns\<close>

datatype dtype = Int32 | Float32 | StringDtype | Category

text \<open>A value of a column; a missing text value (\<^verbatim>\<open><NA>\<close>) is \<open>TextV None\<close>.\<close>

datatype val = IntV int | FloatV f32 | TextV "string option"

text \<open>The field texts that pandas reads as missing values by default.\<close>

definition na_values :: "string list" where
  "na_values =
     ['''', ''#N/A'', ''#N/A N/A'', ''#NA'', ''-1.#IND'', ''-1.#QNAN'', ''-NaN'', ''-nan'',
      ''1.#IND'', ''1.#QNAN'', ''<NA>'', ''N/A'', ''NA'', ''NULL'', ''NaN'', ''None'',
      ''n/a'', ''nan'', ''null'']"

definition to_lower :: "char \<Rightarrow> char" where
  "to_lower c =
     (case map_of (zip ''ABCDEFGHIJKLMNOPQRSTUVWXYZ'' ''abcdefghijklmnopqrstuvwxyz'') c of
        None \<Rightarrow> c
      | Some l \<Rightarrow> l)"

text \<open>
  One field of a \<^verbatim>\<open>float32\<close> column: a missing value is not-a-number, a decimal
  literal is converted, and the names of the infinities are accepted in any case.
  \<open>None\<close>: the field is not a number.
\<close>

definition to_float32 :: "string \<Rightarrow> f32 option" where
  "to_float32 s =
     (if s \<in> set na_values then Some NaN
      else
        (case xstrtod s of
           Some x \<Rightarrow> Some (f32_of_decimal x)
         | None \<Rightarrow>
             if map to_lower s \<in> set [''inf'', ''+inf'', ''infinity'', ''+infinity'']
             then Some (Infinity False)
             else if map to_lower s \<in> set [''-inf'', ''-infinity'']
             then Some (Infinity True)
             else None))"

text \<open>
  When the parse for the declared type refuses a column, pandas infers a type for it
  (integer, then binary64, then Boolean, then plain text) and casts the result to the
  declared type, keeping it only if no value changes. The next definitions serve that
  second attempt.
\<close>

text \<open>A binary64 value, as the parser holds a number before the cast.\<close>

datatype f64 = Finite64 bool nat int | Infinity64 bool | NaN64

text \<open>One field read as binary64; it is accepted exactly when \<open>to_float32\<close> accepts it.\<close>

definition to_float64 :: "string \<Rightarrow> f64 option" where
  "to_float64 s =
     (if s \<in> set na_values then Some NaN64
      else
        (case xstrtod s of
           Some (neg, m, e) \<Rightarrow>
             (case (if 0 \<le> e then round_binary 53 (- 1074) 1023 (m * 10 ^ nat e) 1
                    else round_binary 53 (- 1074) 1023 m (10 ^ nat (- e))) of
                None \<Rightarrow> Some (Infinity64 neg)
              | Some (m64, t64) \<Rightarrow> Some (Finite64 neg m64 t64))
         | None \<Rightarrow>
             if map to_lower s \<in> set [''inf'', ''+inf'', ''infinity'', ''+infinity'']
             then Some (Infinity64 False)
             else if map to_lower s \<in> set [''-inf'', ''-infinity'']
             then Some (Infinity64 True)
             else None))"

text \<open>
  The cast of a binary64 value to \<^verbatim>\<open>int32\<close> that leaves the value as it is: the value
  must be a whole number within 32 bits.
\<close>

definition integral_int32 :: "f64 \<Rightarrow> int option" where
  "integral_int32 x =
     (case x of
        Finite64 neg m t \<Rightarrow>
          if 0 \<le> t \<or> m mod 2 ^ nat (- t) = 0 then
            (let a = (if 0 \<le> t then int (m * 2 ^ nat t) else int (m div 2 ^ nat (- t)));
                 v = (if neg then - a else a)
             in if - (2 ^ 31) \<le> v \<and> v < 2 ^ 31 then Some v else None)
          else None
      | Infinity64 neg \<Rightarrow> None
      | NaN64 \<Rightarrow> None)"

text \<open>The Boolean words: \<^verbatim>\<open>true\<close> and \<^verbatim>\<open>false\<close> in any case of the letters.\<close>

definition bool_value :: "string \<Rightarrow> bool option" where
  "bool_value s =
     (if map to_lower s = ''true'' then Some True
      else if map to_lower s = ''false'' then Some False
      else None)"

text \<open>
  The second attempt for a column declared \<^verbatim>\<open>int32\<close>: a column of numbers is kept when
  every number is a whole number within 32 bits (so \<^verbatim>\<open>10.0\<close> becomes 10); a column of
  Boolean words becomes ones and zeros; anything else is plain text, whose cast fails.
  (A column of Boolean words with missing values among them is not covered: it is taken
  as refused.)
\<close>

definition fallback_int32 :: "string list \<Rightarrow> exn + val list" where
  "fallback_int32 cells =
     (case those (map to_float64 cells) of
        Some xs \<Rightarrow>
          (case those (map integral_int32 xs) of
             None \<Rightarrow> Inl ValueError
           | Some vs \<Rightarrow> Inr (map IntV vs))
      | None \<Rightarrow>
          (case those (map bool_value cells) of
             None \<Rightarrow> Inl ValueError
           | Some bs \<Rightarrow> Inr (map (\<lambda>b. IntV (if b then 1 else 0)) bs)))"

text \<open>
  The second attempt for a column declared \<^verbatim>\<open>float32\<close>: a column of Boolean words
  becomes 1.0 and 0.0; anything else is plain text, whose cast fails.
\<close>

definition fallback_float32 :: "string list \<Rightarrow> exn + val list" where
  "fallback_float32 cells =
     (case those (map bool_value cells) of
        None \<Rightarrow> Inl ValueError
      | Some bs \<Rightarrow>
          Inr (map (\<lambda>b. FloatV (if b then Finite False 8388608 (- 23) else Finite False 0 0)) bs))"

text \<open>
  The fields of an integer column: every field must convert, and the column must fit
  \<^verbatim>\<open>int64\<close> or, failing that, \<^verbatim>\<open>uint64\<close>. \<open>None\<close>: not an integer column.
\<close>

definition try_int64 :: "string list \<Rightarrow> int list option" where
  "try_int64 cells =
     (case those (map str_to_int64 cells) of
        None \<Rightarrow> None
      | Some xs \<Rightarrow>
          if list_all (\<lambda>x. - (2 ^ 63) \<le> x \<and> x < 2 ^ 63) xs
             \<or> list_all (\<lambda>x. 0 \<le> x \<and> x < 2 ^ 64) xs
          then Some xs else None)"

text \<open>\<^verbatim>\<open>astype('int32')\<close> keeps the low 32 bits, read as a signed number.\<close>

definition astype_int32 :: "int \<Rightarrow> int" where
  "astype_int32 x = (x + 2 ^ 31) mod 2 ^ 32 - 2 ^ 31"

definition text_val :: "string \<Rightarrow> val" where
  "text_val s = TextV (if s \<in> set na_values then None else Some s)"

text \<open>
  The fields of one column under its declared type. An integer column whose fields are
  integers and missing values, with a missing value among them, makes \<^verbatim>\<open>read_csv\<close>
  raise \<^verbatim>\<open>ValueError\<close>; a column that the parse for the declared type refuses
  otherwise gets the second attempt, and \<^verbatim>\<open>ValueError\<close> if that fails too.
\<close>

definition convert :: "dtype \<Rightarrow> string list \<Rightarrow> exn + val list" where
  "convert t cells =
     (case t of
        Int32 \<Rightarrow>
          (case try_int64 cells of
             Some xs \<Rightarrow> Inr (map (\<lambda>x. IntV (astype_int32 x)) xs)
           | None \<Rightarrow>
               if list_ex (\<lambda>s. s \<in> set na_values) cells
                  \<and> list_all (\<lambda>s. s \<in> set na_values \<or> str_to_int64 s \<noteq> None) cells
               then Inl ValueError
               else fallback_int32 cells)
      | Float32 \<Rightarrow>
          (case those (map to_float32 cells) of
             None \<Rightarrow> fallback_float32 cells
           | Some xs \<Rightarrow> Inr (map FloatV xs))
      | StringDtype \<Rightarrow> Inr (map text_val cells)
      | Category \<Rightarrow> Inr (map text_val cells))"

subsection \<open>The data frame\<close>

text \<open>A column has a name, a type and one value for every row.\<close>

type_synonym column = "string \<times> dtype \<times> val list"

record dataframe =
  cols :: "column list"
  nrows :: nat

text \<open>
  A record shorter than the header is completed with empty fields by the tokenizer;
  fields beyond the header's width are not read.
\<close>

definition field :: "string list \<Rightarrow> nat \<Rightarrow> string" where
  "field r i = (if i < length r then r ! i else [])"

text \<open>
  The positions of the header that \<^verbatim>\<open>usecols\<close> selects, in the order of the file.
  A repeated header name is renamed by pandas (\<^verbatim>\<open>name.1\<close>, ...) before the selection,
  so only its first occurrence can be selected.
\<close>

definition selected :: "string list \<Rightarrow> string list \<Rightarrow> nat list" where
  "selected usecols header =
     filter (\<lambda>i. header ! i \<in> set usecols \<and> header ! i \<notin> set (take i header))
       [0..<length header]"

text \<open>The first error of a list of results, or all the values.\<close>

fun collect :: "(exn + 'a) list \<Rightarrow> exn + 'a list" where
  "collect [] = Inr []"
| "collect (x # xs) =
     (case x of
        Inl e \<Rightarrow> Inl e
      | Inr v \<Rightarrow> (case collect xs of Inl e \<Rightarrow> Inl e | Inr vs \<Rightarrow> Inr (v # vs)))"

text \<open>A column that \<^verbatim>\<open>dtype\<close> does not mention would be left as text.\<close>

definition read_column ::
    "(string \<rightharpoonup> dtype) \<Rightarrow> string list \<Rightarrow> csv \<Rightarrow> nat \<Rightarrow> exn + column" where
  "read_column dtypes header rows i =
     (let t = (case dtypes (header ! i) of None \<Rightarrow> StringDtype | Some t \<Rightarrow> t)
      in case convert t (map (\<lambda>r. field r i) rows) of
           Inl e \<Rightarrow> Inl e
         | Inr vs \<Rightarrow> Inr (header ! i, t, vs))"

text \<open>
  \<^verbatim>\<open>pd.read_csv(path, usecols=..., dtype=..., engine='c')\<close>: a file without records
  raises \<^verbatim>\<open>EmptyDataError\<close>, a name of \<^verbatim>\<open>usecols\<close> that the header lacks raises
  \<^verbatim>\<open>ValueError\<close>, and the frame has the selected columns in the order of the file.
\<close>

definition read_csv ::
    "directory \<Rightarrow> path \<Rightarrow> string list \<Rightarrow> (string \<rightharpoonup> dtype) \<Rightarrow> exn + dataframe" where
  "read_csv d p usecols dtypes =
     (case open_read d p of
        Inl e \<Rightarrow> Inl e
      | Inr [] \<Rightarrow> Inl EmptyDataError
      | Inr (header # rows) \<Rightarrow>
          if filter (\<lambda>c. c \<notin> set header) usecols \<noteq> [] then Inl ValueError
          else
            (case collect (map (read_column dtypes header rows) (selected usecols header)) of
               Inl e \<Rightarrow> Inl e
             | Inr cs \<Rightarrow> Inr \<lparr>cols = cs, nrows = length rows\<rparr>))"

text \<open>
  One field of the output: an integer in decimal, a number with \<^verbatim>\<open>float_format\<close>, a
  missing value as the empty text (\<^verbatim>\<open>na_rep\<close>).
\<close>

definition render :: "val \<Rightarrow> string" where
  "render v =
     (case v of
        IntV i \<Rightarrow> (if i < 0 then ''-'' @ decimal (nat (- i)) else decimal (nat i))
      | FloatV x \<Rightarrow> (case x of NaN \<Rightarrow> '''' | _ \<Rightarrow> format_6f x)
      | TextV None \<Rightarrow> ''''
      | TextV (Some s) \<Rightarrow> s)"

text \<open>
  The records \<^verbatim>\<open>to_csv(index=False, float_format='%.6f')\<close> writes: the column names,
  then one record per row, with no index field. Every column of a frame that
  \<open>read_csv\<close> returns has \<open>nrows\<close> values.
\<close>

definition csv_of :: "dataframe \<Rightarrow> csv" where
  "csv_of df =
     map fst (cols df)
     # map (\<lambda>r. map (\<lambda>(n, t, vs). render (vs ! r)) (cols df)) [0..<nrows df]"

text \<open>pandas refuses to write into a directory that does not exist, then opens the file.\<close>

definition to_csv :: "dataframe \<Rightarrow> directory \<Rightarrow> path \<Rightarrow> exn + directory" where
  "to_csv df d p =
     (if is_dir d (parent p) then open_write d p (csv_of df) else Inl OSError)"

subsection \<open>The procedure\<close>

definition input_file :: path where
  "input_file = [''files'', ''input'', ''truck_event_text_partition.csv'']"

definition output_file :: path where
  "output_file = [''files'', ''output'', ''specific-columns.csv'']"

definition columns_to_extract :: "string list" where
  "columns_to_extract =
     [''driverId'', ''truckId'', ''eventTime'', ''eventType'', ''longitude'', ''latitude'',
      ''driverName'', ''routeName'', ''eventDate'']"

definition dtype_mapping :: "string \<rightharpoonup> dtype" where
  "dtype_mapping =
     map_of
       [(''driverId'', Int32), (''truckId'', Int32), (''eventTime'', StringDtype),
        (''eventType'', Category), (''longitude'', Float32), (''latitude'', Float32),
        (''driverName'', StringDtype), (''routeName'', StringDtype),
        (''eventDate'', StringDtype)]"

text \<open>
  The lines the run prints, by kind and with the values they show (the memory figure and
  the layout of the preview are not modelled).
\<close>

datatype message =
    MsgReading
  | MsgDataRead nat nat
  | MsgMemory
  | MsgColumnsHeading
  | MsgColumn string dtype
  | MsgSaving
  | MsgSaved path
  | MsgSummary nat nat
  | MsgSampleHeading
  | MsgSample nat
  | MsgNotFound path
  | MsgError exn

text \<open>How a call ends: it returns a Boolean, or an exception leaves it.\<close>

datatype outcome = Returned bool | Raised exn

record run =
  result :: outcome
  stdout :: "message list"
  disk :: directory

text \<open>What the run prints between reading and writing (lines 57 to 74).\<close>

definition report :: "dataframe \<Rightarrow> message list" where
  "report df =
     [MsgReading, MsgDataRead (nrows df) (length (cols df)), MsgMemory, MsgColumnsHeading]
     @ map (\<lambda>(n, t, vs). MsgColumn n t) (cols df) @ [MsgSaving]"

text \<open>What it prints after writing (lines 81 to 86); the preview shows up to three rows.\<close>

definition summary :: "dataframe \<Rightarrow> message list" where
  "summary df =
     [MsgSaved output_file, MsgSummary (nrows df) (length (cols df)), MsgSampleHeading,
      MsgSample (min 3 (nrows df))]"

text \<open>
  The body of the \<^verbatim>\<open>try\<close> statement (lines 44 to 88): its value or the exception that
  leaves it, what it printed until then, and the disk.
\<close>

definition try_block :: "directory \<Rightarrow> (exn + bool) \<times> message list \<times> directory" where
  "try_block d =
     (case read_csv d input_file columns_to_extract dtype_mapping of
        Inl e \<Rightarrow> (Inl e, [MsgReading], d)
      | Inr df \<Rightarrow>
          (case to_csv df d output_file of
             Inl e \<Rightarrow> (Inl e, report df, d)
           | Inr d' \<Rightarrow> (Inr True, report df @ summary df, d')))"

text \<open>
  \<^verbatim>\<open>extract_specific_columns()\<close>: the directory of the output file is ensured before
  the \<^verbatim>\<open>try\<close> statement (line 28), so an exception of that step leaves the function;
  the handlers (lines 90 to 95) print one line and return \<^verbatim>\<open>False\<close>.
\<close>

definition extract_specific_columns :: "directory \<Rightarrow> run" where
  "extract_specific_columns d =
     (case mkdir d (parent output_file) of
        Inl e \<Rightarrow> \<lparr>result = Raised e, stdout = [], disk = d\<rparr>
      | Inr d1 \<Rightarrow>
          (case try_block d1 of
             (Inr b, out, d2) \<Rightarrow> \<lparr>result = Returned b, stdout = out, disk = d2\<rparr>
           | (Inl e, out, d2) \<Rightarrow>
               if e = FileNotFoundError
               then \<lparr>result = Returned False, stdout = out @ [MsgNotFound input_file],
                     disk = d2\<rparr>
               else \<lparr>result = Returned False, stdout = out @ [MsgError e], disk = d2\<rparr>))"

text \<open>
  The script run as a program (lines 98 to 100): \<^verbatim>\<open>exit(0 if success else 1)\<close>. When an
  exception leaves the function the interpreter prints the traceback and ends with
  status 1.
\<close>

definition main :: "directory \<Rightarrow> nat" where
  "main d =
     (case result (extract_specific_columns d) of
        Returned success \<Rightarrow> (if success then 0 else 1)
      | Raised e \<Rightarrow> 1)"

subsection \<open>Accepted tables and the projection\<close>

text \<open>
  The vocabulary of the statements about accepted input; the procedure does not use it.
  A field holds a value of a column type when the conversion accepts it: for \<open>Int32\<close>
  an integer literal within 32 bits, for \<open>Float32\<close> a decimal literal, a missing value
  or an infinity; any text for the text types.
\<close>

definition cell_value :: "dtype \<Rightarrow> string \<Rightarrow> val option" where
  "cell_value t s =
     (case t of
        Int32 \<Rightarrow>
          (case str_to_int64 s of
             None \<Rightarrow> None
           | Some x \<Rightarrow> if - (2 ^ 31) \<le> x \<and> x < 2 ^ 31 then Some (IntV x) else None)
      | Float32 \<Rightarrow> map_option FloatV (to_float32 s)
      | StringDtype \<Rightarrow> Some (text_val s)
      | Category \<Rightarrow> Some (text_val s))"

text \<open>
  A well-formed input table: a header without repeated names that has the nine columns,
  and records of the header's length whose fields under the nine columns hold values of
  the declared types.
\<close>

definition well_formed :: "csv \<Rightarrow> bool" where
  "well_formed recs =
     (case recs of
        [] \<Rightarrow> False
      | header # rows \<Rightarrow>
          distinct header
          \<and> list_all (\<lambda>c. c \<in> set header) columns_to_extract
          \<and> list_all (\<lambda>r. length r = length header
                \<and> list_all (\<lambda>(c, s). case dtype_mapping c of
                                         None \<Rightarrow> True
                                       | Some t \<Rightarrow> cell_value t s \<noteq> None) (zip header r))
              rows)"



text \<open>
  What the output should hold, said without the data frame: of every record the fields
  under the nine columns, in the order of the input header, each written as its column
  type is written.
\<close>

definition out_field :: "string \<Rightarrow> string \<Rightarrow> string" where
  "out_field c s =
     (case dtype_mapping c of
        None \<Rightarrow> s
      | Some t \<Rightarrow> (case cell_value t s of None \<Rightarrow> [] | Some v \<Rightarrow> render v))"

definition projection :: "csv \<Rightarrow> csv" where
  "projection recs =
     (case recs of
        [] \<Rightarrow> []
      | header # rows \<Rightarrow>
          filter (\<lambda>c. c \<in> set columns_to_extract) header
          # map (\<lambda>r. map (\<lambda>(c, s). out_field c s)
                      (filter (\<lambda>(c, s). c \<in> set columns_to_extract) (zip header r)))
              rows)"

subsection \<open>Example tables\<close>

text \<open>A disk that holds the table \<open>t\<close> at the input path and nothing else.\<close>

definition disk_with :: "csv \<Rightarrow> directory" where
  "disk_with t =
     [''files'' \<mapsto> Dir [''input'' \<mapsto> Dir [''truck_event_text_partition.csv'' \<mapsto> File t]]]"

text \<open>The nine columns in the order of \<open>columns_to_extract\<close>, and one record.\<close>

definition nine_columns_example :: csv where
  "nine_columns_example =
     [[''driverId'', ''truckId'', ''eventTime'', ''eventType'', ''longitude'', ''latitude'',
       ''driverName'', ''routeName'', ''eventDate''],
      [''10'', ''200'', ''59:21.5'', ''Normal'', ''-94.5'', ''39.1'', ''Alice'', ''R1'',
       ''2016-01-01'']]"

text \<open>The same record with the first two columns exchanged.\<close>

definition exchanged_example :: csv where
  "exchanged_example =
     [[''truckId'', ''driverId'', ''eventTime'', ''eventType'', ''longitude'', ''latitude'',
       ''driverName'', ''routeName'', ''eventDate''],
      [''200'', ''10'', ''59:21.5'', ''Normal'', ''-94.5'', ''39.1'', ''Alice'', ''R1'',
       ''2016-01-01'']]"

text \<open>A table with three more columns among the nine, as the trucking data set has them.\<close>

definition twelve_columns_example :: csv where
  "twelve_columns_example =
     [[''driverId'', ''truckId'', ''eventTime'', ''eventType'', ''longitude'', ''latitude'',
       ''eventKey'', ''CorrelationId'', ''driverName'', ''routeId'', ''routeName'',
       ''eventDate''],
      [''14'', ''25'', ''59:21.4'', ''Normal'', ''-94.58'', ''37.03'', ''14|25|9223370572464814373'',
       ''3.66E+18'', ''Adis Cesir'', ''160405074'', ''Joplin to Kansas City Route 2'',
       ''2016-05-27-22'']]"




section \<open>The three paths of the run\<close>

text \<open>
  The run touches three fixed paths. Each operation on them is unfolded once into a case
  distinction on the entries it meets; the later proofs work from these equations.
\<close>

lemma parent_output_file: "parent output_file = [''files'', ''output'']"
  by (simp add: parent_def output_file_def)

lemma mkdir_output_dir:
  "mkdir d (parent output_file) =
     (case d ''files'' of
        None \<Rightarrow> Inr (d(''files'' \<mapsto> Dir [''output'' \<mapsto> Dir Map.empty]))
      | Some (File f) \<Rightarrow> Inl NotADirectoryError
      | Some (Dir e) \<Rightarrow>
          (case e ''output'' of
             None \<Rightarrow> Inr (d(''files'' \<mapsto> Dir (e(''output'' \<mapsto> Dir Map.empty))))
           | Some (File f) \<Rightarrow> Inl FileExistsError
           | Some (Dir x) \<Rightarrow> Inr d))"
  unfolding parent_output_file
  apply (subst mkdir.simps)
  apply (subst mkdir.simps)
  apply (simp add: parent_def mkdir_exist_ok_def is_dir_def split: option.splits node.splits)
  done

lemma is_dir_output_dir:
  "is_dir d (parent output_file) =
     (case d ''files'' of
        Some (Dir e) \<Rightarrow> (case e ''output'' of Some (Dir x) \<Rightarrow> True | _ \<Rightarrow> False)
      | _ \<Rightarrow> False)"
  unfolding parent_output_file
  by (simp add: is_dir_def split: option.splits node.splits)

lemma stat_input_file:
  "stat d input_file =
     (case d ''files'' of
        None \<Rightarrow> Inl FileNotFoundError
      | Some (File f) \<Rightarrow> Inl NotADirectoryError
      | Some (Dir e) \<Rightarrow>
          (case e ''input'' of
             None \<Rightarrow> Inl FileNotFoundError
           | Some (File f) \<Rightarrow> Inl NotADirectoryError
           | Some (Dir g) \<Rightarrow>
               (case g ''truck_event_text_partition.csv'' of
                  None \<Rightarrow> Inl FileNotFoundError
                | Some n \<Rightarrow> Inr n)))"
  by (simp add: input_file_def split: option.splits node.splits)

lemma stat_output_file:
  "stat d output_file =
     (case d ''files'' of
        None \<Rightarrow> Inl FileNotFoundError
      | Some (File f) \<Rightarrow> Inl NotADirectoryError
      | Some (Dir e) \<Rightarrow>
          (case e ''output'' of
             None \<Rightarrow> Inl FileNotFoundError
           | Some (File f) \<Rightarrow> Inl NotADirectoryError
           | Some (Dir x) \<Rightarrow>
               (case x ''specific-columns.csv'' of
                  None \<Rightarrow> Inl FileNotFoundError
                | Some n \<Rightarrow> Inr n)))"
  by (simp add: output_file_def split: option.splits node.splits)

lemma to_csv_output_file:
  "to_csv df d output_file =
     (case d ''files'' of
        Some (Dir e) \<Rightarrow>
          (case e ''output'' of
             Some (Dir x) \<Rightarrow>
               (case x ''specific-columns.csv'' of
                  Some (Dir y) \<Rightarrow> Inl IsADirectoryError
                | _ \<Rightarrow>
                    Inr (d(''files'' \<mapsto>
                      Dir (e(''output'' \<mapsto>
                        Dir (x(''specific-columns.csv'' \<mapsto> File (csv_of df))))))))
           | _ \<Rightarrow> Inl OSError)
      | _ \<Rightarrow> Inl OSError)"
  unfolding to_csv_def is_dir_output_dir
  by (simp add: output_file_def split: option.splits node.splits)

subsection \<open>Ensuring the directory\<close>

lemma mkdir_makes_dir:
  assumes "mkdir d (parent output_file) = Inr d1"
  shows "is_dir d1 (parent output_file)"
  using assms unfolding mkdir_output_dir is_dir_output_dir
  by (auto split: option.splits node.splits)

lemma mkdir_noop:
  assumes "is_dir d (parent output_file)"
  shows "mkdir d (parent output_file) = Inr d"
  using assms unfolding mkdir_output_dir is_dir_output_dir
  by (auto split: option.splits node.splits)

lemma mkdir_keeps_input:
  assumes "mkdir d (parent output_file) = Inr d1"
  shows "stat d1 input_file = stat d input_file"
  using assms unfolding mkdir_output_dir stat_input_file
  by (auto split: option.splits node.splits)

lemma mkdir_keeps_output:
  assumes "mkdir d (parent output_file) = Inr d1"
  shows "stat d1 output_file = stat d output_file"
  using assms unfolding mkdir_output_dir stat_output_file
  by (auto split: option.splits node.splits)

subsection \<open>Writing the output file\<close>

lemma to_csv_keeps_input:
  assumes "to_csv df d output_file = Inr d2"
  shows "stat d2 input_file = stat d input_file"
  using assms unfolding to_csv_output_file stat_input_file
  by (auto split: option.splits node.splits)

lemma to_csv_keeps_dir:
  assumes "to_csv df d output_file = Inr d2"
  shows "is_dir d2 (parent output_file)"
  using assms unfolding to_csv_output_file is_dir_output_dir
  by (auto split: option.splits node.splits)

lemma to_csv_written:
  assumes "to_csv df d output_file = Inr d2"
  shows "stat d2 output_file = Inr (File (csv_of df))"
  using assms unfolding to_csv_output_file stat_output_file
  by (auto split: option.splits node.splits)

lemma to_csv_again:
  assumes "to_csv df d output_file = Inr d2"
  shows "to_csv df d2 output_file = Inr d2"
  using assms unfolding to_csv_output_file
  by (auto split: option.splits node.splits)

lemma to_csv_succeeds:
  assumes "is_dir d (parent output_file)" and "\<not> is_dir d output_file"
  shows "\<exists>d2. to_csv df d output_file = Inr d2"
  using assms unfolding to_csv_output_file is_dir_output_dir
  by (auto simp: is_dir_def stat_output_file split: option.splits node.splits)

lemma read_csv_cong:
  assumes "stat d' input_file = stat d input_file"
  shows "read_csv d' input_file us ts = read_csv d input_file us ts"
  using assms by (simp add: read_csv_def open_read_def)

section \<open>The run, case by case\<close>

text \<open>
  The four ways a run can go: the directory step raises; reading raises; writing raises;
  everything succeeds. Reading sees the input path as it was before the directory step.
\<close>

lemma run_raised:
  assumes "mkdir d (parent output_file) = Inl e"
  shows "extract_specific_columns d = \<lparr>result = Raised e, stdout = [], disk = d\<rparr>"
  using assms by (simp add: extract_specific_columns_def)

lemma run_read_error:
  assumes "mkdir d (parent output_file) = Inr d1"
    and "read_csv d input_file columns_to_extract dtype_mapping = Inl e"
  shows "extract_specific_columns d =
     \<lparr>result = Returned False,
      stdout = [MsgReading, if e = FileNotFoundError then MsgNotFound input_file else MsgError e],
      disk = d1\<rparr>"
proof -
  have "read_csv d1 input_file columns_to_extract dtype_mapping = Inl e"
    using assms read_csv_cong [OF mkdir_keeps_input [OF assms(1)]] by simp
  then show ?thesis
    using assms(1) by (simp add: extract_specific_columns_def try_block_def)
qed

lemma to_csv_error:
  assumes "to_csv df d output_file = Inl e"
  shows "e = IsADirectoryError \<or> e = OSError"
  using assms unfolding to_csv_output_file
  by (auto split: option.splits node.splits)

lemma run_write_error:
  assumes "mkdir d (parent output_file) = Inr d1"
    and "read_csv d input_file columns_to_extract dtype_mapping = Inr df"
    and "to_csv df d1 output_file = Inl e"
  shows "extract_specific_columns d =
     \<lparr>result = Returned False, stdout = report df @ [MsgError e], disk = d1\<rparr>"
proof -
  have "read_csv d1 input_file columns_to_extract dtype_mapping = Inr df"
    using assms read_csv_cong [OF mkdir_keeps_input [OF assms(1)]] by simp
  moreover have "e \<noteq> FileNotFoundError"
    using to_csv_error [OF assms(3)] by auto
  ultimately show ?thesis
    using assms(1,3) by (simp add: extract_specific_columns_def try_block_def)
qed

lemma run_success:
  assumes "mkdir d (parent output_file) = Inr d1"
    and "read_csv d input_file columns_to_extract dtype_mapping = Inr df"
    and "to_csv df d1 output_file = Inr d2"
  shows "extract_specific_columns d =
     \<lparr>result = Returned True, stdout = report df @ summary df, disk = d2\<rparr>"
proof -
  have "read_csv d1 input_file columns_to_extract dtype_mapping = Inr df"
    using assms read_csv_cong [OF mkdir_keeps_input [OF assms(1)]] by simp
  then show ?thesis
    using assms(1,3) by (simp add: extract_specific_columns_def try_block_def)
qed

lemma run_cases:
  obtains (raised) e where "mkdir d (parent output_file) = Inl e"
  | (read_error) d1 e where "mkdir d (parent output_file) = Inr d1"
      and "read_csv d input_file columns_to_extract dtype_mapping = Inl e"
  | (write_error) d1 df e where "mkdir d (parent output_file) = Inr d1"
      and "read_csv d input_file columns_to_extract dtype_mapping = Inr df"
      and "to_csv df d1 output_file = Inl e"
  | (success) d1 df d2 where "mkdir d (parent output_file) = Inr d1"
      and "read_csv d input_file columns_to_extract dtype_mapping = Inr df"
      and "to_csv df d1 output_file = Inr d2"
proof (cases "mkdir d (parent output_file)")
  case (Inl e)
  then show ?thesis by (rule raised)
next
  case d1: (Inr d1)
  show ?thesis
  proof (cases "read_csv d input_file columns_to_extract dtype_mapping")
    case (Inl e)
    with d1 show ?thesis by (rule read_error)
  next
    case df: (Inr df)
    show ?thesis
    proof (cases "to_csv df d1 output_file")
      case (Inl e)
      with d1 df show ?thesis by (rule write_error)
    next
      case (Inr d2)
      with d1 df show ?thesis by (rule success)
    qed
  qed
qed

lemma mkdir_succeeds:
  assumes "\<forall>f. stat d (parent (parent output_file)) \<noteq> Inr (File f)"
    and "\<forall>f. stat d (parent output_file) \<noteq> Inr (File f)"
  shows "\<exists>d1. mkdir d (parent output_file) = Inr d1"
  using assms unfolding parent_output_file
  by (auto simp: parent_def mkdir_output_dir [unfolded parent_output_file]
      split: option.splits node.splits)

lemma mkdir_succeeds_input:
  assumes "stat d input_file = Inl FileNotFoundError \<or> (\<exists>n. stat d input_file = Inr n)"
    and "\<forall>f. stat d (parent output_file) \<noteq> Inr (File f)"
  shows "\<exists>d1. mkdir d (parent output_file) = Inr d1"
  using assms unfolding parent_output_file stat_input_file
  by (auto simp: mkdir_output_dir [unfolded parent_output_file]
      split: option.splits node.splits)

section \<open>Three small disks\<close>

text \<open>
  An empty working directory; one where \<^verbatim>\<open>files\<close> is a regular file; one where
  \<^verbatim>\<open>files/output\<close> is a regular file. The run is evaluated on each.
\<close>

lemma run_on_empty_disk:
  "extract_specific_columns Map.empty =
     \<lparr>result = Returned False, stdout = [MsgReading, MsgNotFound input_file],
      disk = [''files'' \<mapsto> Dir [''output'' \<mapsto> Dir Map.empty]]\<rparr>"
proof -
  have "mkdir Map.empty (parent output_file)
      = Inr [''files'' \<mapsto> Dir [''output'' \<mapsto> Dir Map.empty]]"
    by (simp add: mkdir_output_dir)
  moreover have "read_csv Map.empty input_file columns_to_extract dtype_mapping
      = Inl FileNotFoundError"
    by (simp add: read_csv_def open_read_def stat_input_file)
  ultimately show ?thesis
    using run_read_error by fastforce
qed

lemma run_files_is_a_file:
  "extract_specific_columns [''files'' \<mapsto> File []] =
     \<lparr>result = Raised NotADirectoryError, stdout = [], disk = [''files'' \<mapsto> File []]\<rparr>"
  by (rule run_raised) (simp add: mkdir_output_dir)


section \<open>Failures and the exit status\<close>




text \<open>
  C6. The process ends with status 0 exactly when \<^verbatim>\<open>extract_specific_columns\<close> returns
  \<^verbatim>\<open>True\<close>, and with status 1 whenever it returns \<^verbatim>\<open>False\<close>.
\<close>

theorem exit_status:
  "(main d = 0 \<longleftrightarrow> result (extract_specific_columns d) = Returned True)
   \<and> (result (extract_specific_columns d) = Returned False \<longrightarrow> main d = 1)"
  by (cases "result (extract_specific_columns d)") (auto simp: main_def)

theorem exit_status_witness:
  "result (extract_specific_columns Map.empty) = Returned False \<and> main Map.empty = 1"
  using exit_status [of Map.empty] by (simp add: run_on_empty_disk)

section \<open>Running twice\<close>

text \<open>
  C7. A second run, started on the disk the first run left, ends as the first did and
  leaves the disk as it found it; in particular the output file is the same. (A file
  is the list of its records here; the bytes \<^verbatim>\<open>to_csv\<close> writes are a function of them.)
\<close>

theorem second_run_writes_the_same:
  "stat (disk (extract_specific_columns (disk (extract_specific_columns d)))) output_file
     = stat (disk (extract_specific_columns d)) output_file
   \<and> disk (extract_specific_columns (disk (extract_specific_columns d)))
     = disk (extract_specific_columns d)
   \<and> result (extract_specific_columns (disk (extract_specific_columns d)))
     = result (extract_specific_columns d)"
proof -
  have "extract_specific_columns (disk (extract_specific_columns d))
      = extract_specific_columns d"
  proof (cases d rule: run_cases)
    case (raised e)
    then show ?thesis by (simp add: run_raised)
  next
    case (read_error d1 e)
    have m: "mkdir d1 (parent output_file) = Inr d1"
      using read_error(1) by (intro mkdir_noop mkdir_makes_dir)
    have r: "read_csv d1 input_file columns_to_extract dtype_mapping = Inl e"
      using read_error read_csv_cong [OF mkdir_keeps_input [OF read_error(1)]] by simp
    show ?thesis
      unfolding run_read_error [OF read_error] using run_read_error [OF m r] by simp
  next
    case (write_error d1 df e)
    have m: "mkdir d1 (parent output_file) = Inr d1"
      using write_error(1) by (intro mkdir_noop mkdir_makes_dir)
    have r: "read_csv d1 input_file columns_to_extract dtype_mapping = Inr df"
      using write_error read_csv_cong [OF mkdir_keeps_input [OF write_error(1)]] by simp
    show ?thesis
      unfolding run_write_error [OF write_error]
      using run_write_error [OF m r write_error(3)] by simp
  next
    case (success d1 df d2)
    have m: "mkdir d2 (parent output_file) = Inr d2"
      using success(3) by (intro mkdir_noop to_csv_keeps_dir)
    have "read_csv d1 input_file columns_to_extract dtype_mapping = Inr df"
      using success read_csv_cong [OF mkdir_keeps_input [OF success(1)]] by simp
    then have r: "read_csv d2 input_file columns_to_extract dtype_mapping = Inr df"
      using read_csv_cong [OF to_csv_keeps_input [OF success(3)]] by simp
    show ?thesis
      unfolding run_success [OF success]
      using run_success [OF m r to_csv_again [OF success(3)]] by simp
  qed
  then show ?thesis by simp
qed

section \<open>The output directory\<close>

text \<open>
  C8. If neither \<^verbatim>\<open>files\<close> nor \<^verbatim>\<open>files/output\<close> is a regular file (each is a
  directory already or does not exist), the directory step succeeds; afterwards both are
  directories, so a missing parent has been created; the step repeated on the result
  succeeds and changes nothing; and where \<^verbatim>\<open>files/output\<close> was a directory before, the
  step changes nothing.
\<close>

theorem mkdir_idempotent:
  assumes "\<forall>f. stat d (parent (parent output_file)) \<noteq> Inr (File f)"
    and "\<forall>f. stat d (parent output_file) \<noteq> Inr (File f)"
  shows "\<exists>d1. mkdir d (parent output_file) = Inr d1
     \<and> is_dir d1 (parent (parent output_file))
     \<and> is_dir d1 (parent output_file)
     \<and> mkdir d1 (parent output_file) = Inr d1
     \<and> (is_dir d (parent output_file) \<longrightarrow> d1 = d)"
proof -
  obtain d1 where d1: "mkdir d (parent output_file) = Inr d1"
    using mkdir_succeeds [OF assms] by blast
  have "is_dir d1 (parent output_file)"
    using d1 by (rule mkdir_makes_dir)
  moreover from this have "mkdir d1 (parent output_file) = Inr d1"
    by (rule mkdir_noop)
  moreover have "is_dir d1 (parent (parent output_file))"
    using \<open>is_dir d1 (parent output_file)\<close> unfolding parent_output_file
    by (auto simp: parent_def is_dir_def split: option.splits node.splits)
  moreover have "is_dir d (parent output_file) \<longrightarrow> d1 = d"
    using d1 mkdir_noop [of d] by auto
  ultimately show ?thesis
    using d1 by blast
qed

theorem mkdir_idempotent_witness:
  "\<exists>d1. mkdir Map.empty (parent output_file) = Inr d1
     \<and> is_dir d1 (parent (parent output_file))
     \<and> is_dir d1 (parent output_file)
     \<and> mkdir d1 (parent output_file) = Inr d1"
proof -
  have a: "\<forall>f. stat Map.empty (parent (parent output_file)) \<noteq> Inr (File f)"
    by (simp add: parent_def output_file_def)
  have b: "\<forall>f. stat Map.empty (parent output_file) \<noteq> Inr (File f)"
    by (simp add: parent_def output_file_def)
  show ?thesis
    using mkdir_idempotent [OF a b] by blast
qed

text \<open>
  C9, as the code has it. The directory step comes first, so after every run in which
  \<^verbatim>\<open>extract_specific_columns\<close> returns, \<^verbatim>\<open>files/output\<close> is a directory; and after a
  run that returns \<^verbatim>\<open>False\<close> (the input file missing, for one) the disk is exactly what
  the directory step made of it: nothing is at the output path that was not there
  before.
\<close>

theorem directory_exists_after_return:
  assumes "result (extract_specific_columns d) = Returned b"
  shows "is_dir (disk (extract_specific_columns d)) (parent output_file)
     \<and> (\<not> b \<longrightarrow>
          mkdir d (parent output_file) = Inr (disk (extract_specific_columns d))
          \<and> stat (disk (extract_specific_columns d)) output_file = stat d output_file)"
proof (cases d rule: run_cases)
  case (raised e)
  with assms show ?thesis by (simp add: run_raised)
next
  case (read_error d1 e)
  show ?thesis
    unfolding run_read_error [OF read_error]
    using read_error(1) by (simp add: mkdir_makes_dir mkdir_keeps_output)
next
  case (write_error d1 df e)
  show ?thesis
    unfolding run_write_error [OF write_error]
    using write_error(1) by (simp add: mkdir_makes_dir mkdir_keeps_output)
next
  case (success d1 df d2)
  show ?thesis
    using assms unfolding run_success [OF success]
    using success(3) by (simp add: to_csv_keeps_dir)
qed

theorem directory_exists_after_return_witness:
  "result (extract_specific_columns Map.empty) = Returned False
   \<and> is_dir (disk (extract_specific_columns Map.empty)) (parent output_file)
   \<and> stat (disk (extract_specific_columns Map.empty)) output_file = stat Map.empty output_file"
proof -
  have r: "result (extract_specific_columns Map.empty) = Returned False"
    by (simp add: run_on_empty_disk)
  show ?thesis
    using r directory_exists_after_return [OF r] by simp
qed

text \<open>
  C9 as stated fails: the directory does not exist after every run. When \<^verbatim>\<open>files\<close> is a
  regular file (so the input file is missing) the directory step raises and the run
  leaves no directory \<^verbatim>\<open>files/output\<close>.
\<close>

theorem no_directory_after_crash:
  "stat [''files'' \<mapsto> File []] input_file = Inl NotADirectoryError
   \<and> result (extract_specific_columns [''files'' \<mapsto> File []]) = Raised NotADirectoryError
   \<and> \<not> is_dir (disk (extract_specific_columns [''files'' \<mapsto> File []])) (parent output_file)"
  by (simp add: run_files_is_a_file is_dir_output_dir stat_input_file)

section \<open>Reading fails\<close>

lemma open_read_stat:
  "open_read d p = Inr f \<longleftrightarrow> stat d p = Inr (File f)"
  by (auto simp: open_read_def split: sum.splits node.splits)

lemma read_csv_not_found:
  assumes "stat d input_file = Inl FileNotFoundError"
  shows "read_csv d input_file us ts = Inl FileNotFoundError"
  using assms by (simp add: read_csv_def open_read_def)

lemma read_csv_no_records:
  assumes "open_read d input_file = Inr []"
  shows "read_csv d input_file us ts = Inl EmptyDataError"
  using assms by (simp add: read_csv_def)

lemma read_csv_missing_column:
  assumes "open_read d input_file = Inr (header # rows)"
    and "c \<in> set us" and "c \<notin> set header"
  shows "read_csv d input_file us ts = Inl ValueError"
  using assms by (auto simp: read_csv_def filter_empty_conv)



lemma failed_read_run:
  assumes "read_csv d input_file columns_to_extract dtype_mapping = Inl e"
    and "stat d input_file = Inl FileNotFoundError \<or> (\<exists>n. stat d input_file = Inr n)"
    and "\<forall>f. stat d (parent output_file) \<noteq> Inr (File f)"
  shows "result (extract_specific_columns d) = Returned False
     \<and> stdout (extract_specific_columns d)
        = [MsgReading, if e = FileNotFoundError then MsgNotFound input_file else MsgError e]
     \<and> mkdir d (parent output_file) = Inr (disk (extract_specific_columns d))
     \<and> stat (disk (extract_specific_columns d)) output_file = stat d output_file"
proof -
  obtain d1 where d1: "mkdir d (parent output_file) = Inr d1"
    using mkdir_succeeds_input [OF assms(2,3)] by blast
  show ?thesis
    unfolding run_read_error [OF d1 assms(1)]
    using d1 by (simp add: mkdir_keeps_output)
qed

text \<open>
  C3, as the code has it. If nothing exists at the input path (opening it raises
  \<^verbatim>\<open>FileNotFoundError\<close>) and \<^verbatim>\<open>files/output\<close> is not a regular file, the function
  returns \<^verbatim>\<open>False\<close>, prints the file-not-found line with the input path after the
  line that announces the reading, and leaves the disk as the directory step made it:
  the output path holds what it held before.
\<close>

theorem missing_input_returns_false:
  assumes "stat d input_file = Inl FileNotFoundError"
    and "\<forall>f. stat d (parent output_file) \<noteq> Inr (File f)"
  shows "result (extract_specific_columns d) = Returned False
     \<and> stdout (extract_specific_columns d) = [MsgReading, MsgNotFound input_file]
     \<and> mkdir d (parent output_file) = Inr (disk (extract_specific_columns d))
     \<and> stat (disk (extract_specific_columns d)) output_file = stat d output_file"
  using failed_read_run [OF read_csv_not_found [OF assms(1)] _ assms(2)] assms(1)
  by simp

theorem missing_input_returns_false_witness:
  "stat [''files'' \<mapsto> Dir Map.empty] input_file = Inl FileNotFoundError
   \<and> result (extract_specific_columns [''files'' \<mapsto> Dir Map.empty]) = Returned False
   \<and> stdout (extract_specific_columns [''files'' \<mapsto> Dir Map.empty])
      = [MsgReading, MsgNotFound input_file]
   \<and> stat (disk (extract_specific_columns [''files'' \<mapsto> Dir Map.empty])) output_file
      = Inl FileNotFoundError"
proof -
  have a: "stat [''files'' \<mapsto> Dir Map.empty] input_file = Inl FileNotFoundError"
    by (simp add: stat_input_file)
  have b: "\<forall>f. stat [''files'' \<mapsto> Dir Map.empty] (parent output_file) \<noteq> Inr (File f)"
    by (simp add: parent_output_file)
  have c: "stat [''files'' \<mapsto> Dir Map.empty] output_file = Inl FileNotFoundError"
    by (simp add: stat_output_file)
  show ?thesis
    using a c missing_input_returns_false [OF a b] by simp
qed

text \<open>
  C3 as stated fails, in two ways. With an empty directory \<^verbatim>\<open>files/input\<close> the input
  path does not exist, but when \<^verbatim>\<open>files/output\<close> is a regular file the directory step
  raises before anything is read; the function returns nothing and prints nothing. And
  when the input path is a directory, it does not resolve to a file either, but opening
  it raises \<^verbatim>\<open>IsADirectoryError\<close>, which the second handler reports as a processing
  error: no file-not-found line is printed.
\<close>

theorem missing_input_crash:
  "stat [''files'' \<mapsto> Dir [''input'' \<mapsto> Dir Map.empty, ''output'' \<mapsto> File []]] input_file
     = Inl FileNotFoundError
   \<and> extract_specific_columns
       [''files'' \<mapsto> Dir [''input'' \<mapsto> Dir Map.empty, ''output'' \<mapsto> File []]]
     = \<lparr>result = Raised FileExistsError, stdout = [],
        disk = [''files'' \<mapsto> Dir [''input'' \<mapsto> Dir Map.empty, ''output'' \<mapsto> File []]]\<rparr>
   \<and> is_dir [''files'' \<mapsto> Dir [''input'' \<mapsto> Dir [''truck_event_text_partition.csv'' \<mapsto>
         Dir Map.empty]]] input_file
   \<and> stdout (extract_specific_columns
         [''files'' \<mapsto> Dir [''input'' \<mapsto> Dir [''truck_event_text_partition.csv'' \<mapsto>
           Dir Map.empty]]])
      = [MsgReading, MsgError IsADirectoryError]"
proof (intro conjI)
  show "stat [''files'' \<mapsto> Dir [''input'' \<mapsto> Dir Map.empty, ''output'' \<mapsto> File []]]
      input_file = Inl FileNotFoundError"
    by (simp add: stat_input_file)
  show "extract_specific_columns
       [''files'' \<mapsto> Dir [''input'' \<mapsto> Dir Map.empty, ''output'' \<mapsto> File []]]
     = \<lparr>result = Raised FileExistsError, stdout = [],
        disk = [''files'' \<mapsto> Dir [''input'' \<mapsto> Dir Map.empty, ''output'' \<mapsto> File []]]\<rparr>"
    by (rule run_raised) (simp add: mkdir_output_dir)
  let ?d = "[''files'' \<mapsto> Dir [''input'' \<mapsto> Dir [''truck_event_text_partition.csv'' \<mapsto>
         Dir Map.empty]]]"
  show "is_dir ?d input_file"
    by (simp add: is_dir_def stat_input_file)
  have "read_csv ?d input_file columns_to_extract dtype_mapping = Inl IsADirectoryError"
    by (simp add: read_csv_def open_read_def stat_input_file)
  moreover have "\<exists>n. stat ?d input_file = Inr n"
    by (simp add: stat_input_file)
  moreover have "\<forall>f. stat ?d (parent output_file) \<noteq> Inr (File f)"
    by (simp add: parent_output_file)
  ultimately show "stdout (extract_specific_columns ?d)
      = [MsgReading, MsgError IsADirectoryError]"
    using failed_read_run [of ?d IsADirectoryError] by simp
qed

text \<open>
  C4, as the code has it. If the input file has no header at all, or its header lacks one
  of the nine columns, and \<^verbatim>\<open>files/output\<close> is not a regular file, the function
  returns \<^verbatim>\<open>False\<close> after printing the processing-error line (for
  \<^verbatim>\<open>EmptyDataError\<close> or \<^verbatim>\<open>ValueError\<close>), and nothing is written: the disk is as the
  directory step made it.
\<close>

theorem missing_column_returns_false:
  assumes "open_read d input_file = Inr recs"
    and "recs = [] \<or> (\<exists>c \<in> set columns_to_extract. c \<notin> set (hd recs))"
    and "\<forall>f. stat d (parent output_file) \<noteq> Inr (File f)"
  shows "result (extract_specific_columns d) = Returned False
     \<and> stdout (extract_specific_columns d)
        = [MsgReading, MsgError (if recs = [] then EmptyDataError else ValueError)]
     \<and> mkdir d (parent output_file) = Inr (disk (extract_specific_columns d))
     \<and> stat (disk (extract_specific_columns d)) output_file = stat d output_file"
proof -
  have s: "stat d input_file = Inr (File recs)"
    using assms(1) by (simp add: open_read_stat)
  have "read_csv d input_file columns_to_extract dtype_mapping
      = Inl (if recs = [] then EmptyDataError else ValueError)"
  proof (cases recs)
    case Nil
    with assms(1) show ?thesis by (simp add: read_csv_no_records)
  next
    case (Cons header rows)
    with assms(2) obtain c where "c \<in> set columns_to_extract" and "c \<notin> set header"
      by auto
    with assms(1) Cons show ?thesis
      using read_csv_missing_column [of d header rows c] by simp
  qed
  from failed_read_run [OF this _ assms(3)] s show ?thesis
    by (simp split: if_splits)
qed

theorem missing_column_returns_false_witness:
  "open_read
     [''files'' \<mapsto> Dir [''input'' \<mapsto> Dir [''truck_event_text_partition.csv'' \<mapsto>
        File [[''driverId'', ''truckId''], [''10'', ''200'']]]]] input_file
     = Inr [[''driverId'', ''truckId''], [''10'', ''200'']]
   \<and> ''latitude'' \<in> set columns_to_extract
   \<and> ''latitude'' \<notin> set (hd [[''driverId'', ''truckId''], [''10'', ''200'']])
   \<and> result (extract_specific_columns
       [''files'' \<mapsto> Dir [''input'' \<mapsto> Dir [''truck_event_text_partition.csv'' \<mapsto>
          File [[''driverId'', ''truckId''], [''10'', ''200'']]]]]) = Returned False
   \<and> stdout (extract_specific_columns
       [''files'' \<mapsto> Dir [''input'' \<mapsto> Dir [''truck_event_text_partition.csv'' \<mapsto>
          File [[''driverId'', ''truckId''], [''10'', ''200'']]]]])
      = [MsgReading, MsgError ValueError]"
proof -
  let ?recs = "[[''driverId'', ''truckId''], [''10'', ''200'']]"
  let ?d = "[''files'' \<mapsto> Dir [''input'' \<mapsto> Dir [''truck_event_text_partition.csv'' \<mapsto>
        File ?recs]]]"
  have a: "open_read ?d input_file = Inr ?recs"
    by (simp add: open_read_def stat_input_file)
  have b: "''latitude'' \<in> set columns_to_extract"
    by (simp add: columns_to_extract_def)
  have c: "''latitude'' \<notin> set (hd ?recs)"
    by simp
  have d: "?recs = [] \<or> (\<exists>c \<in> set columns_to_extract. c \<notin> set (hd ?recs))"
    using b c by blast
  have e: "\<forall>f. stat ?d (parent output_file) \<noteq> Inr (File f)"
    by (simp add: parent_output_file)
  show ?thesis
    using a b c missing_column_returns_false [OF a d e] by simp
qed

text \<open>
  C4 as stated fails: the header below lacks seven of the nine columns, but
  \<^verbatim>\<open>files/output\<close> is a regular file, so the directory step raises before the file is
  read: no processing-error line, no return value.
\<close>

theorem missing_column_crash:
  "open_read
     [''files'' \<mapsto> Dir [''input'' \<mapsto> Dir [''truck_event_text_partition.csv'' \<mapsto>
        File [[''driverId'', ''truckId''], [''10'', ''200'']]], ''output'' \<mapsto> File []]]
     input_file
   = Inr [[''driverId'', ''truckId''], [''10'', ''200'']]
   \<and> extract_specific_columns
     [''files'' \<mapsto> Dir [''input'' \<mapsto> Dir [''truck_event_text_partition.csv'' \<mapsto>
        File [[''driverId'', ''truckId''], [''10'', ''200'']]], ''output'' \<mapsto> File []]]
   = \<lparr>result = Raised FileExistsError, stdout = [],
      disk = [''files'' \<mapsto> Dir [''input'' \<mapsto> Dir [''truck_event_text_partition.csv'' \<mapsto>
        File [[''driverId'', ''truckId''], [''10'', ''200'']]], ''output'' \<mapsto> File []]]\<rparr>"
proof
  show "open_read
     [''files'' \<mapsto> Dir [''input'' \<mapsto> Dir [''truck_event_text_partition.csv'' \<mapsto>
        File [[''driverId'', ''truckId''], [''10'', ''200'']]], ''output'' \<mapsto> File []]]
     input_file
   = Inr [[''driverId'', ''truckId''], [''10'', ''200'']]"
    by (simp add: open_read_def stat_input_file)
  show "extract_specific_columns
     [''files'' \<mapsto> Dir [''input'' \<mapsto> Dir [''truck_event_text_partition.csv'' \<mapsto>
        File [[''driverId'', ''truckId''], [''10'', ''200'']]], ''output'' \<mapsto> File []]]
   = \<lparr>result = Raised FileExistsError, stdout = [],
      disk = [''files'' \<mapsto> Dir [''input'' \<mapsto> Dir [''truck_event_text_partition.csv'' \<mapsto>
        File [[''driverId'', ''truckId''], [''10'', ''200'']]], ''output'' \<mapsto> File []]]\<rparr>"
    by (rule run_raised) (simp add: mkdir_output_dir)
qed

section \<open>Reading succeeds\<close>

lemma those_map_Some:
  assumes "list_all (\<lambda>x. f x \<noteq> None) xs"
  shows "those (map f xs) = Some (map (\<lambda>x. the (f x)) xs)"
  using assms by (induction xs) auto

lemma astype_int32_in_range:
  assumes "- (2 ^ 31) \<le> x" and "x < 2 ^ 31"
  shows "astype_int32 x = x"
  using assms by (simp add: astype_int32_def)

lemma int_cell:
  assumes "cell_value Int32 s \<noteq> None"
  shows "\<exists>x. str_to_int64 s = Some x \<and> - (2 ^ 31) \<le> x \<and> x < 2 ^ 31
     \<and> cell_value Int32 s = Some (IntV x)"
  using assms by (auto simp: cell_value_def split: option.splits if_splits)

lemma convert_accepts:
  assumes "list_all (\<lambda>s. cell_value t s \<noteq> None) cells"
  shows "convert t cells = Inr (map (\<lambda>s. the (cell_value t s)) cells)"
proof (cases t)
  case Int32
  have cell: "\<exists>x. str_to_int64 s = Some x \<and> - (2 ^ 31) \<le> x \<and> x < 2 ^ 31
      \<and> cell_value Int32 s = Some (IntV x)" if "s \<in> set cells" for s
    using assms Int32 that by (intro int_cell) (auto simp: list_all_iff)
  have ok: "list_all (\<lambda>s. str_to_int64 s \<noteq> None) cells"
    using cell by (fastforce simp: list_all_iff)
  have "list_all (\<lambda>x. - (2 ^ 63) \<le> x \<and> x < 2 ^ 63) (map (\<lambda>s. the (str_to_int64 s)) cells)"
    using cell by (fastforce simp: list_all_iff)
  then have "try_int64 cells = Some (map (\<lambda>s. the (str_to_int64 s)) cells)"
    by (simp add: try_int64_def those_map_Some [OF ok])
  moreover have "map (\<lambda>x. IntV (astype_int32 x)) (map (\<lambda>s. the (str_to_int64 s)) cells)
      = map (\<lambda>s. the (cell_value t s)) cells"
    using cell Int32 by (fastforce simp: astype_int32_in_range)
  ultimately show ?thesis
    using Int32 by (simp add: convert_def)
next
  case Float32
  have ok: "list_all (\<lambda>s. to_float32 s \<noteq> None) cells"
    using assms Float32 by (auto simp: list_all_iff cell_value_def)
  have "map FloatV (map (\<lambda>s. the (to_float32 s)) cells) = map (\<lambda>s. the (cell_value t s)) cells"
    using ok Float32 by (auto simp: list_all_iff cell_value_def)
  then show ?thesis
    using Float32 by (simp add: convert_def those_map_Some [OF ok])
next
  case StringDtype
  then show ?thesis by (simp add: convert_def cell_value_def)
next
  case Category
  then show ?thesis by (simp add: convert_def cell_value_def)
qed

lemma collect_map_Inr:
  assumes "\<forall>x \<in> set xs. f x = Inr (g x)"
  shows "collect (map f xs) = Inr (map g xs)"
  using assms by (induction xs) auto

lemma distinct_nth_not_earlier:
  assumes "distinct xs" and "i < length xs"
  shows "xs ! i \<notin> set (take i xs)"
proof
  assume "xs ! i \<in> set (take i xs)"
  then obtain j where "j < i" and "xs ! j = xs ! i"
    using assms(2) by (auto simp: in_set_conv_nth)
  with assms show False
    by (auto simp: distinct_conv_nth)
qed

lemma selected_distinct:
  assumes "distinct header"
  shows "selected us header = filter (\<lambda>i. header ! i \<in> set us) [0..<length header]"
  unfolding selected_def
  by (rule filter_cong) (auto simp: distinct_nth_not_earlier [OF assms])

lemma zip_as_indices:
  assumes "length ys = length xs"
  shows "zip xs ys = map (\<lambda>i. (xs ! i, ys ! i)) [0..<length xs]"
  using assms by (auto intro: nth_equalityI)

lemma fields_of_selected:
  assumes "length r = length header"
  shows "map (\<lambda>i. F (header ! i) (r ! i)) (filter (\<lambda>i. header ! i \<in> U) [0..<length header])
     = map (\<lambda>(c, s). F c s) (filter (\<lambda>(c, s). c \<in> U) (zip header r))"
  unfolding zip_as_indices [OF assms] filter_map
  by (simp add: comp_def)

lemma names_of_selected:
  "map (\<lambda>i. header ! i) (filter (\<lambda>i. header ! i \<in> U) [0..<length header])
     = filter (\<lambda>c. c \<in> U) header"
proof -
  have "filter (\<lambda>c. c \<in> U) header = filter (\<lambda>c. c \<in> U) (map (\<lambda>i. header ! i) [0..<length header])"
    by (simp add: map_nth)
  then show ?thesis
    by (simp add: filter_map comp_def)
qed

lemma dtype_mapping_total:
  assumes "c \<in> set columns_to_extract"
  shows "\<exists>t. dtype_mapping c = Some t"
  using assms by (auto simp: columns_to_extract_def dtype_mapping_def)

lemma well_formed_row:
  assumes "well_formed (header # rows)" and "r \<in> set rows"
  shows "length r = length header"
  using assms by (auto simp: well_formed_def list_all_iff)

lemma well_formed_cell:
  assumes "well_formed (header # rows)" and "r \<in> set rows"
    and "i < length header" and "dtype_mapping (header ! i) = Some t"
  shows "cell_value t (r ! i) \<noteq> None"
proof -
  have len: "length r = length header"
    using assms(1,2) by (rule well_formed_row)
  have "list_all (\<lambda>(c, s). case dtype_mapping c of
                              None \<Rightarrow> True
                            | Some t \<Rightarrow> cell_value t s \<noteq> None) (zip header r)"
    using assms(1,2) by (auto simp: well_formed_def list_all_iff)
  moreover have "(header ! i, r ! i) \<in> set (zip header r)"
    using assms(3) len by (auto simp: set_zip)
  ultimately show ?thesis
    using assms(4) by (auto simp: list_all_iff)
qed

lemma read_column_accepts:
  assumes "well_formed (header # rows)"
    and "i < length header" and "dtype_mapping (header ! i) = Some t"
  shows "read_column dtype_mapping header rows i
     = Inr (header ! i, t, map (\<lambda>r. the (cell_value t (r ! i))) rows)"
proof -
  have eq: "map (\<lambda>r. field r i) rows = map (\<lambda>r. r ! i) rows"
    using assms(2) well_formed_row [OF assms(1)] by (simp add: field_def)
  have ok: "list_all (\<lambda>s. cell_value t s \<noteq> None) (map (\<lambda>r. r ! i) rows)"
    using well_formed_cell [OF assms(1) _ assms(2,3)] by (simp add: list_all_iff)
  have "convert t (map (\<lambda>r. field r i) rows)
      = Inr (map (\<lambda>r. the (cell_value t (r ! i))) rows)"
    unfolding eq convert_accepts [OF ok] by (simp add: comp_def)
  then show ?thesis
    using assms(3) by (simp add: read_column_def)
qed

lemma map_over_rows:
  "map (\<lambda>k. F (rows ! k)) [0..<length rows] = map F rows"
  by (auto intro: nth_equalityI)

text \<open>
  On a well-formed table the read succeeds, and what \<open>to_csv\<close> writes of the frame is
  the projection of the table.
\<close>

lemma read_csv_well_formed:
  assumes "open_read d input_file = Inr recs" and "well_formed recs"
  shows "\<exists>df. read_csv d input_file columns_to_extract dtype_mapping = Inr df
     \<and> csv_of df = projection recs"
proof -
  obtain header rows where recs: "recs = header # rows"
    using assms(2) by (cases recs) (auto simp: well_formed_def)
  have wf: "well_formed (header # rows)"
    using assms(2) recs by simp
  have dist: "distinct header" and has: "list_all (\<lambda>c. c \<in> set header) columns_to_extract"
    using wf by (auto simp: well_formed_def)
  define sel where "sel = filter (\<lambda>i. header ! i \<in> set columns_to_extract) [0..<length header]"
  define ty where "ty = (\<lambda>i. the (dtype_mapping (header ! i)))"
  define g where "g = (\<lambda>i. (header ! i, ty i, map (\<lambda>r. the (cell_value (ty i) (r ! i))) rows))"
  have sel: "selected columns_to_extract header = sel"
    unfolding sel_def by (rule selected_distinct [OF dist])
  have in_sel: "i < length header \<and> dtype_mapping (header ! i) = Some (ty i)"
    if "i \<in> set sel" for i
    using that dtype_mapping_total [of "header ! i"] by (auto simp: sel_def ty_def)
  have "\<forall>i \<in> set sel. read_column dtype_mapping header rows i = Inr (g i)"
    using in_sel read_column_accepts [OF wf] by (simp add: g_def)
  then have "collect (map (read_column dtype_mapping header rows) sel) = Inr (map g sel)"
    by (rule collect_map_Inr)
  moreover have "filter (\<lambda>c. c \<notin> set header) columns_to_extract = []"
    using has by (auto simp: list_all_iff filter_empty_conv)
  ultimately have read:
    "read_csv d input_file columns_to_extract dtype_mapping
       = Inr \<lparr>cols = map g sel, nrows = length rows\<rparr>"
    using assms(1) recs sel by (simp add: read_csv_def)
  have names: "map fst (map g sel) = filter (\<lambda>c. c \<in> set columns_to_extract) header"
    unfolding sel_def using names_of_selected [of header "set columns_to_extract"]
    by (simp add: g_def comp_def)
  have row: "map (\<lambda>(n, t, vs). render (vs ! k)) (map g sel)
      = map (\<lambda>(c, s). out_field c s)
          (filter (\<lambda>(c, s). c \<in> set columns_to_extract) (zip header (rows ! k)))"
    if k: "k < length rows" for k
  proof -
    have r: "rows ! k \<in> set rows"
      using k by simp
    have "render (the (cell_value (ty i) (rows ! k ! i))) = out_field (header ! i) (rows ! k ! i)"
      if "i \<in> set sel" for i
      using in_sel [OF that] well_formed_cell [OF wf r, of i "ty i"]
      by (auto simp: out_field_def)
    then have "map (\<lambda>(n, t, vs). render (vs ! k)) (map g sel)
        = map (\<lambda>i. out_field (header ! i) (rows ! k ! i)) sel"
      using k by (simp add: g_def comp_def)
    also have "\<dots> = map (\<lambda>(c, s). out_field c s)
          (filter (\<lambda>(c, s). c \<in> set columns_to_extract) (zip header (rows ! k)))"
      unfolding sel_def by (rule fields_of_selected [OF well_formed_row [OF wf r]])
    finally show ?thesis .
  qed
  have "map (\<lambda>k. map (\<lambda>(n, t, vs). render (vs ! k)) (map g sel)) [0..<length rows]
      = map (\<lambda>k. map (\<lambda>(c, s). out_field c s)
          (filter (\<lambda>(c, s). c \<in> set columns_to_extract) (zip header (rows ! k))))
          [0..<length rows]"
    using row by simp
  also have "\<dots> = map (\<lambda>r. map (\<lambda>(c, s). out_field c s)
          (filter (\<lambda>(c, s). c \<in> set columns_to_extract) (zip header r))) rows"
    by (rule map_over_rows)
  finally have "csv_of \<lparr>cols = map g sel, nrows = length rows\<rparr> = projection recs"
    using names recs by (simp add: csv_of_def projection_def)
  with read show ?thesis by simp
qed

text \<open>The whole run on a well-formed table, when nothing stands in the way of the output.\<close>

lemma well_formed_run:
  assumes "open_read d input_file = Inr recs" and "well_formed recs"
    and "\<forall>f. stat d (parent output_file) \<noteq> Inr (File f)"
    and "\<not> is_dir d output_file"
  shows "result (extract_specific_columns d) = Returned True
     \<and> stat (disk (extract_specific_columns d)) output_file = Inr (File (projection recs))"
proof -
  have s: "stat d input_file = Inr (File recs)"
    using assms(1) by (simp add: open_read_stat)
  then obtain d1 where d1: "mkdir d (parent output_file) = Inr d1"
    using mkdir_succeeds_input [OF _ assms(3)] by auto
  obtain df where df: "read_csv d input_file columns_to_extract dtype_mapping = Inr df"
    and out: "csv_of df = projection recs"
    using read_csv_well_formed [OF assms(1,2)] by blast
  have "\<not> is_dir d1 output_file"
    using assms(4) mkdir_keeps_output [OF d1] by (simp add: is_dir_def)
  then obtain d2 where d2: "to_csv df d1 output_file = Inr d2"
    using to_csv_succeeds [OF mkdir_makes_dir [OF d1]] by blast
  show ?thesis
    unfolding run_success [OF d1 df d2] using to_csv_written [OF d2] out by simp
qed

section \<open>Evaluating the conversions\<close>

text \<open>
  The recursive functions on numbers, as conditional equations that the simplifier can
  apply to numerals, and the definitions a conversion unfolds.
\<close>

lemma bitlen_0: "bitlen 0 = 0"
  by (simp add: bitlen.simps)

lemma bitlen_pos: "0 < n \<Longrightarrow> bitlen n = Suc (bitlen (n div 2))"
  by (subst bitlen.simps) simp

lemma decimal_small: "n < 10 \<Longrightarrow> decimal n = [digit_char n]"
  by (subst decimal.simps) simp

lemma decimal_big: "10 \<le> n \<Longrightarrow> decimal n = decimal (n div 10) @ [digit_char (n mod 10)]"
  by (subst decimal.simps) simp

lemmas parse_defs = xstrtod_def str_to_int64_def take_sign_def take_fraction_def
  take_exponent_def isspace_def isdigit_def nat_of_digits_def digit_val_def

lemmas round_defs = f32_of_decimal_def round_binary_def floor_log2_def rne_def
  bitlen_0 bitlen_pos Let_def

lemmas print_defs = render_def format_6f_def rne_def decimal_small decimal_big
  digit_char_def zfill_def Let_def

lemma float_m94_5: "to_float32 ''-94.5'' = Some (Finite True 12386304 (- 17))"
proof -
  have "xstrtod ''-94.5'' = Some (True, 945, - 1)"
    by (simp add: parse_defs)
  moreover have "f32_of_decimal (True, 945, - 1) = Finite True 12386304 (- 17)"
    by (simp add: round_defs)
  ultimately show ?thesis
    by (simp add: to_float32_def na_values_def)
qed

lemma float_39_1: "to_float32 ''39.1'' = Some (Finite False 10249830 (- 18))"
proof -
  have "xstrtod ''39.1'' = Some (False, 391, - 1)"
    by (simp add: parse_defs)
  moreover have "f32_of_decimal (False, 391, - 1) = Finite False 10249830 (- 18)"
    by (simp add: round_defs)
  ultimately show ?thesis
    by (simp add: to_float32_def na_values_def)
qed

lemma float_m94_58: "to_float32 ''-94.58'' = Some (Finite True 12396790 (- 17))"
proof -
  have "xstrtod ''-94.58'' = Some (True, 9458, - 2)"
    by (simp add: parse_defs)
  moreover have "f32_of_decimal (True, 9458, - 2) = Finite True 12396790 (- 17)"
    by (simp add: round_defs)
  ultimately show ?thesis
    by (simp add: to_float32_def na_values_def)
qed

lemma float_37_03: "to_float32 ''37.03'' = Some (Finite False 9707192 (- 18))"
proof -
  have "xstrtod ''37.03'' = Some (False, 3703, - 2)"
    by (simp add: parse_defs)
  moreover have "f32_of_decimal (False, 3703, - 2) = Finite False 9707192 (- 18)"
    by (simp add: round_defs)
  ultimately show ?thesis
    by (simp add: to_float32_def na_values_def)
qed

lemma render_m94_5: "render (FloatV (Finite True 12386304 (- 17))) = ''-94.500000''"
  by (simp add: print_defs)

lemma render_39_1: "render (FloatV (Finite False 10249830 (- 18))) = ''39.099998''"
  by (simp add: print_defs)

lemma render_m94_58: "render (FloatV (Finite True 12396790 (- 17))) = ''-94.580002''"
  by (simp add: print_defs)

lemma render_37_03: "render (FloatV (Finite False 9707192 (- 18))) = ''37.029999''"
  by (simp add: print_defs)

lemma int_fields:
  "str_to_int64 ''10'' = Some 10" "str_to_int64 ''200'' = Some 200"
  "str_to_int64 ''14'' = Some 14" "str_to_int64 ''25'' = Some 25"
  by (simp_all add: parse_defs)

lemma render_ints:
  "render (IntV 10) = ''10''" "render (IntV 200) = ''200''"
  "render (IntV 14) = ''14''" "render (IntV 25) = ''25''"
  by (simp_all add: print_defs)

section \<open>The shape of a written number\<close>

lemma digit_char_isdigit:
  assumes "n < 10"
  shows "isdigit (digit_char n)"
proof -
  have "n \<in> set [0, 1, 2, 3, 4, 5, 6, 7, 8, 9]"
    using assms by auto
  then show ?thesis
    by (auto simp: digit_char_def isdigit_def)
qed

lemma decimal_digits: "decimal n \<noteq> [] \<and> list_all isdigit (decimal n)"
proof (induction n rule: decimal.induct)
  case (1 n)
  show ?case
  proof (cases "n < 10")
    case True
    then show ?thesis by (simp add: decimal_small digit_char_isdigit)
  next
    case False
    then show ?thesis
      using "1.IH" by (simp add: decimal_big digit_char_isdigit)
  qed
qed

lemma decimal_length:
  assumes "n < 10 ^ k" and "0 < k"
  shows "length (decimal n) \<le> k"
  using assms
proof (induction k arbitrary: n)
  case 0
  then show ?case by simp
next
  case (Suc k)
  show ?case
  proof (cases "n < 10")
    case True
    then show ?thesis by (simp add: decimal_small)
  next
    case False
    then have "0 < k"
      using Suc.prems(1) by (cases k) auto
    moreover have "n div 10 < 10 ^ k"
      using Suc.prems(1) by (simp add: less_mult_imp_div_less mult.commute)
    ultimately have "length (decimal (n div 10)) \<le> k"
      by (intro Suc.IH)
    then show ?thesis
      using False by (simp add: decimal_big)
  qed
qed

lemma zfill_six:
  assumes "j < 10 ^ 6"
  shows "length (zfill 6 (decimal j)) = 6 \<and> list_all isdigit (zfill 6 (decimal j))"
proof -
  have "length (decimal j) \<le> 6"
    using assms by (intro decimal_length) simp_all
  moreover have "isdigit CHR ''0''"
    by (simp add: isdigit_def)
  ultimately show ?thesis
    using decimal_digits [of j] by (auto simp: zfill_def list_all_iff)
qed

lemma format_6f_finite:
  "\<exists>ip fp. format_6f (Finite neg m t) = (if neg then ''-'' else '''') @ ip @ ''.'' @ fp
     \<and> ip \<noteq> [] \<and> list_all isdigit ip \<and> length fp = 6 \<and> list_all isdigit fp"
proof -
  define k where "k = (if 0 \<le> t then m * 2 ^ nat t * 10 ^ 6 else rne (m * 10 ^ 6) (2 ^ nat (- t)))"
  have "format_6f (Finite neg m t)
      = (if neg then ''-'' else '''') @ decimal (k div 10 ^ 6) @ ''.''
        @ zfill 6 (decimal (k mod 10 ^ 6))"
    by (simp add: format_6f_def k_def Let_def)
  moreover have "k mod 10 ^ 6 < 10 ^ 6"
    by simp
  ultimately show ?thesis
    using decimal_digits [of "k div 10 ^ 6"] zfill_six [of "k mod 10 ^ 6"] by blast
qed

lemma out_field_float:
  assumes "c = ''longitude'' \<or> c = ''latitude''" and "to_float32 s = Some x"
  shows "out_field c s = render (FloatV x)"
  using assms by (auto simp: out_field_def dtype_mapping_def cell_value_def)

section \<open>The header and the records of the projection\<close>

lemma distinct_columns_to_extract: "distinct columns_to_extract"
  by (simp add: columns_to_extract_def)

lemma projected_header:
  assumes "well_formed (header # rows)"
  shows "distinct (filter (\<lambda>c. c \<in> set columns_to_extract) header)
     \<and> set (filter (\<lambda>c. c \<in> set columns_to_extract) header) = set columns_to_extract
     \<and> length (filter (\<lambda>c. c \<in> set columns_to_extract) header) = 9"
proof -
  let ?h = "filter (\<lambda>c. c \<in> set columns_to_extract) header"
  have dist: "distinct ?h"
    using assms by (simp add: well_formed_def)
  have names: "set ?h = set columns_to_extract"
    using assms by (auto simp: well_formed_def list_all_iff)
  have "length ?h = card (set ?h)"
    by (rule distinct_card [OF dist, symmetric])
  also have "\<dots> = length columns_to_extract"
    unfolding names using distinct_columns_to_extract by (simp add: distinct_card)
  finally have "length ?h = 9"
    by (simp add: columns_to_extract_def)
  with dist names show ?thesis by simp
qed

lemma projected_record:
  assumes "length r = length header"
  shows "length (filter (\<lambda>(c, s). c \<in> U) (zip header r)) = length (filter (\<lambda>c. c \<in> U) header)"
proof -
  have "map fst (filter (\<lambda>(c, s). c \<in> U) (zip header r))
      = filter (\<lambda>c. c \<in> U) (map fst (zip header r))"
    by (simp add: filter_map comp_def case_prod_unfold)
  also have "\<dots> = filter (\<lambda>c. c \<in> U) header"
    using assms by simp
  finally show ?thesis
    by (metis length_map)
qed

lemma projection_shape:
  assumes "well_formed (header # rows)"
  shows "\<exists>out. projection (header # rows)
       = filter (\<lambda>c. c \<in> set columns_to_extract) header # out
     \<and> length out = length rows \<and> list_all (\<lambda>q. length q = 9) out"
proof -
  have "length (filter (\<lambda>(c, s). c \<in> set columns_to_extract) (zip header r)) = 9"
    if "r \<in> set rows" for r
    using projected_record [OF well_formed_row [OF assms that]] projected_header [OF assms]
    by simp
  then show ?thesis
    by (simp add: projection_def list_all_iff)
qed

section \<open>The examples\<close>

lemma disk_with_input: "open_read (disk_with t) input_file = Inr t"
  by (simp add: disk_with_def open_read_def stat_input_file)

lemma disk_with_free: "\<forall>f. stat (disk_with t) (parent output_file) \<noteq> Inr (File f)"
  by (simp add: disk_with_def parent_output_file)

lemma disk_with_no_output: "\<not> is_dir (disk_with t) output_file"
  by (simp add: disk_with_def is_dir_def stat_output_file)

lemma render_text: "render (TextV (Some s)) = s"
  by (simp add: render_def)

lemmas table_defs = well_formed_def projection_def out_field_def cell_value_def
  columns_to_extract_def dtype_mapping_def text_val_def na_values_def

lemma nine_columns_well_formed: "well_formed nine_columns_example"
  by (simp add: nine_columns_example_def table_defs int_fields float_m94_5 float_39_1)

lemma exchanged_well_formed: "well_formed exchanged_example"
  by (simp add: exchanged_example_def table_defs int_fields float_m94_5 float_39_1)

lemma twelve_columns_well_formed: "well_formed twelve_columns_example"
  by (simp add: twelve_columns_example_def table_defs int_fields float_m94_58 float_37_03)

lemma nine_columns_projection:
  "projection nine_columns_example =
     [[''driverId'', ''truckId'', ''eventTime'', ''eventType'', ''longitude'', ''latitude'',
       ''driverName'', ''routeName'', ''eventDate''],
      [''10'', ''200'', ''59:21.5'', ''Normal'', ''-94.500000'', ''39.099998'', ''Alice'',
       ''R1'', ''2016-01-01'']]"
  by (simp add: nine_columns_example_def table_defs int_fields float_m94_5 float_39_1
      render_ints render_m94_5 render_39_1 render_text)

lemma exchanged_projection:
  "projection exchanged_example =
     [[''truckId'', ''driverId'', ''eventTime'', ''eventType'', ''longitude'', ''latitude'',
       ''driverName'', ''routeName'', ''eventDate''],
      [''200'', ''10'', ''59:21.5'', ''Normal'', ''-94.500000'', ''39.099998'', ''Alice'',
       ''R1'', ''2016-01-01'']]"
  by (simp add: exchanged_example_def table_defs int_fields float_m94_5 float_39_1
      render_ints render_m94_5 render_39_1 render_text)

lemma twelve_columns_projection:
  "projection twelve_columns_example =
     [[''driverId'', ''truckId'', ''eventTime'', ''eventType'', ''longitude'', ''latitude'',
       ''driverName'', ''routeName'', ''eventDate''],
      [''14'', ''25'', ''59:21.4'', ''Normal'', ''-94.580002'', ''37.029999'', ''Adis Cesir'',
       ''Joplin to Kansas City Route 2'', ''2016-05-27-22'']]"
  by (simp add: twelve_columns_example_def table_defs int_fields float_m94_58 float_37_03
      render_ints render_m94_58 render_37_03 render_text)

section \<open>The columns of the output\<close>

text \<open>
  C1, as the code has it. For every well-formed input table that has the nine columns
  (possibly among others), when \<^verbatim>\<open>files/output\<close> is not a regular file and the output
  path is not a directory, the run returns \<^verbatim>\<open>True\<close> and the output file has exactly the
  nine columns, each once, in the order in which the input header lists them (so in the
  order of \<open>columns_to_extract\<close> when the input lists them in that order), with no index
  column before them, and as many records as the input, each of nine fields.
\<close>

theorem nine_columns_in_input_order:
  assumes "open_read d input_file = Inr (header # rows)"
    and "well_formed (header # rows)"
    and "\<forall>f. stat d (parent output_file) \<noteq> Inr (File f)"
    and "\<not> is_dir d output_file"
  shows "result (extract_specific_columns d) = Returned True
     \<and> (\<exists>out. stat (disk (extract_specific_columns d)) output_file
            = Inr (File (filter (\<lambda>c. c \<in> set columns_to_extract) header # out))
          \<and> length out = length rows \<and> list_all (\<lambda>q. length q = 9) out)
     \<and> distinct (filter (\<lambda>c. c \<in> set columns_to_extract) header)
     \<and> set (filter (\<lambda>c. c \<in> set columns_to_extract) header) = set columns_to_extract
     \<and> length (filter (\<lambda>c. c \<in> set columns_to_extract) header) = 9"
  using well_formed_run [OF assms] projection_shape [OF assms(2)] projected_header [OF assms(2)]
  by auto

theorem nine_columns_in_input_order_witness:
  "open_read (disk_with twelve_columns_example) input_file = Inr twelve_columns_example
   \<and> well_formed twelve_columns_example
   \<and> result (extract_specific_columns (disk_with twelve_columns_example)) = Returned True
   \<and> (\<exists>out. stat (disk (extract_specific_columns (disk_with twelve_columns_example)))
              output_file
            = Inr (File (columns_to_extract # out))
          \<and> length out = 1 \<and> list_all (\<lambda>q. length q = 9) out)"
proof -
  let ?header = "[''driverId'', ''truckId'', ''eventTime'', ''eventType'', ''longitude'',
       ''latitude'', ''eventKey'', ''CorrelationId'', ''driverName'', ''routeId'',
       ''routeName'', ''eventDate'']"
  let ?rows = "[[''14'', ''25'', ''59:21.4'', ''Normal'', ''-94.58'', ''37.03'',
       ''14|25|9223370572464814373'', ''3.66E+18'', ''Adis Cesir'', ''160405074'',
       ''Joplin to Kansas City Route 2'', ''2016-05-27-22'']]"
  have t: "twelve_columns_example = ?header # ?rows"
    by (simp add: twelve_columns_example_def)
  have a: "open_read (disk_with twelve_columns_example) input_file = Inr (?header # ?rows)"
    using disk_with_input [of twelve_columns_example] t by simp
  have b: "well_formed (?header # ?rows)"
    using twelve_columns_well_formed t by simp
  have f: "filter (\<lambda>c. c \<in> set columns_to_extract) ?header = columns_to_extract"
    by (simp add: columns_to_extract_def)
  show ?thesis
    using nine_columns_in_input_order [OF a b disk_with_free disk_with_no_output]
      disk_with_input [of twelve_columns_example] twelve_columns_well_formed
    unfolding f by simp
qed

text \<open>
  C1 as stated fails: the order of the output is the order of the input header, not the
  fixed one. The table below is well formed and has the nine columns, with \<^verbatim>\<open>truckId\<close>
  before \<^verbatim>\<open>driverId\<close>; the run succeeds, and the first header token of the output
  is \<^verbatim>\<open>truckId\<close>.
\<close>

theorem exchanged_columns_stay_exchanged:
  "well_formed exchanged_example
   \<and> result (extract_specific_columns (disk_with exchanged_example)) = Returned True
   \<and> stat (disk (extract_specific_columns (disk_with exchanged_example))) output_file
      = Inr (File
          [[''truckId'', ''driverId'', ''eventTime'', ''eventType'', ''longitude'',
            ''latitude'', ''driverName'', ''routeName'', ''eventDate''],
           [''200'', ''10'', ''59:21.5'', ''Normal'', ''-94.500000'', ''39.099998'', ''Alice'',
            ''R1'', ''2016-01-01'']])"
  using well_formed_run [OF disk_with_input exchanged_well_formed disk_with_free
      disk_with_no_output]
    exchanged_well_formed exchanged_projection
  by simp

section \<open>The decimal columns\<close>

text \<open>
  C2, as the code has it. For every well-formed input table (when nothing stands in the
  way of the output) the output file is the projection of the input, in which a field
  \<open>s\<close> under \<^verbatim>\<open>longitude\<close> or \<^verbatim>\<open>latitude\<close> is written as \<open>out_field c s\<close>: the
  \<^verbatim>\<open>%.6f\<close> text of the binary32 number that \<open>s\<close> converts to. For a finite number
  that is an optional minus sign, digits, a point and exactly six digits; a missing value
  is written as the empty field and an infinity as \<^verbatim>\<open>inf\<close> or \<^verbatim>\<open>-inf\<close>. The number
  written is the input rounded to binary32 and then to six decimals: \<^verbatim>\<open>-94.5\<close> gives
  \<^verbatim>\<open>-94.500000\<close>, and \<^verbatim>\<open>39.1\<close> gives \<^verbatim>\<open>39.099998\<close>.
\<close>

theorem decimal_columns_six_digits:
  assumes "open_read d input_file = Inr recs"
    and "well_formed recs"
    and "\<forall>f. stat d (parent output_file) \<noteq> Inr (File f)"
    and "\<not> is_dir d output_file"
    and "c = ''longitude'' \<or> c = ''latitude''"
    and "to_float32 s = Some x"
  shows "stat (disk (extract_specific_columns d)) output_file = Inr (File (projection recs))
     \<and> out_field c s = render (FloatV x)
     \<and> (case x of
          Finite neg m t \<Rightarrow>
            (\<exists>ip fp. out_field c s = (if neg then ''-'' else '''') @ ip @ ''.'' @ fp
               \<and> ip \<noteq> [] \<and> list_all isdigit ip \<and> length fp = 6 \<and> list_all isdigit fp)
        | Infinity neg \<Rightarrow> out_field c s = (if neg then ''-inf'' else ''inf'')
        | NaN \<Rightarrow> out_field c s = '''')"
proof -
  have out: "out_field c s = render (FloatV x)"
    using assms(5,6) by (rule out_field_float)
  have shape: "case x of
          Finite neg m t \<Rightarrow>
            (\<exists>ip fp. out_field c s = (if neg then ''-'' else '''') @ ip @ ''.'' @ fp
               \<and> ip \<noteq> [] \<and> list_all isdigit ip \<and> length fp = 6 \<and> list_all isdigit fp)
        | Infinity neg \<Rightarrow> out_field c s = (if neg then ''-inf'' else ''inf'')
        | NaN \<Rightarrow> out_field c s = ''''"
  proof (cases x)
    case (Finite neg m t)
    then have "out_field c s = format_6f (Finite neg m t)"
      using out by (simp add: render_def)
    with Finite show ?thesis
      using format_6f_finite [of neg m t] by simp
  next
    case (Infinity neg)
    then show ?thesis
      using out by (simp add: render_def format_6f_def)
  next
    case NaN
    then show ?thesis
      using out by (simp add: render_def)
  qed
  have "stat (disk (extract_specific_columns d)) output_file = Inr (File (projection recs))"
    using well_formed_run [OF assms(1,2,3,4)] by simp
  with out shape show ?thesis
    by blast
qed

theorem decimal_columns_six_digits_witness:
  "well_formed nine_columns_example
   \<and> to_float32 ''-94.5'' = Some (Finite True 12386304 (- 17))
   \<and> to_float32 ''39.1'' = Some (Finite False 10249830 (- 18))
   \<and> stat (disk (extract_specific_columns (disk_with nine_columns_example))) output_file
      = Inr (File (projection nine_columns_example))
   \<and> out_field ''longitude'' ''-94.5'' = ''-94.500000''
   \<and> out_field ''latitude'' ''39.1'' = ''39.099998''"
proof -
  have lon: "''longitude'' = ''longitude'' \<or> ''longitude'' = ''latitude''"
    by simp
  have lat: "''latitude'' = ''longitude'' \<or> ''latitude'' = ''latitude''"
    by simp
  note run = disk_with_input nine_columns_well_formed disk_with_free disk_with_no_output
  show ?thesis
    using decimal_columns_six_digits [OF run lon float_m94_5]
      decimal_columns_six_digits [OF run lat float_39_1]
      nine_columns_well_formed float_m94_5 float_39_1 render_m94_5 render_39_1
    by simp
qed

text \<open>
  C2 as stated fails on its own example: the record with longitude \<^verbatim>\<open>-94.5\<close> and
  latitude \<^verbatim>\<open>39.1\<close> is written with latitude \<^verbatim>\<open>39.099998\<close>, since 39.1 is not a
  binary32 number and the nearest one is a little smaller.
\<close>

theorem latitude_39_1_is_not_preserved:
  "well_formed nine_columns_example
   \<and> result (extract_specific_columns (disk_with nine_columns_example)) = Returned True
   \<and> stat (disk (extract_specific_columns (disk_with nine_columns_example))) output_file
      = Inr (File
          [[''driverId'', ''truckId'', ''eventTime'', ''eventType'', ''longitude'',
            ''latitude'', ''driverName'', ''routeName'', ''eventDate''],
           [''10'', ''200'', ''59:21.5'', ''Normal'', ''-94.500000'', ''39.099998'', ''Alice'',
            ''R1'', ''2016-01-01'']])"
  using well_formed_run [OF disk_with_input nine_columns_well_formed disk_with_free
      disk_with_no_output]
    nine_columns_well_formed nine_columns_projection
  by simp

section \<open>Two runs on an example\<close>

text \<open>
  The statement about running twice (C7), on the table with twelve columns: the second run
  leaves the projection of the table at the output path, as the first did.
\<close>

theorem second_run_writes_the_same_witness:
  "stat (disk (extract_specific_columns (disk_with twelve_columns_example))) output_file
     = Inr (File (projection twelve_columns_example))
   \<and> stat (disk (extract_specific_columns
              (disk (extract_specific_columns (disk_with twelve_columns_example)))))
        output_file
     = Inr (File (projection twelve_columns_example))"
  using second_run_writes_the_same [of "disk_with twelve_columns_example"]
    well_formed_run [OF disk_with_input twelve_columns_well_formed disk_with_free
      disk_with_no_output]
  by simp

section \<open>An integer column that does not convert\<close>






















end
